theory Spec2Isabelle
  imports Complex_Main "HOL-Library.Multiset"
begin

section \<open>Values, arrays and exceptions\<close>

text \<open>
  The exceptions that the modelled statements of \<^verbatim>\<open>Photometry_Project_WCS.py\<close> can raise.
  \<open>Exception msg\<close> is Python's generic \<^verbatim>\<open>Exception\<close>, carrying the fixed prefix of its
  message.
\<close>

datatype py_error =
    TypeError
  | ValueError
  | FileNotFoundError
  | UnboundLocalError
  | KeyError
  | SingularMatrixError
  | ConnectionError
  | HTTPError
  | JSONDecodeError
  | AttributeError
  | IndexError
  | Exception string

text \<open>
  Pixel samples read from a FITS file and the samples of a master frame are finite
  numbers; they are modelled as exact reals (rounding, overflow and underflow of binary64
  are outside the model). A division can leave the finite numbers, so its result is a
  numpy float: a finite real, negative zero, an infinity or NaN.
\<close>

datatype npfloat = Fin real | NegZero | PInf | NInf | NaN

fun is_zero :: "npfloat \<Rightarrow> bool" where
  "is_zero (Fin r) = (r = 0)"
| "is_zero NegZero = True"
| "is_zero _ = False"

fun is_inf :: "npfloat \<Rightarrow> bool" where
  "is_inf PInf = True"
| "is_inf NInf = True"
| "is_inf _ = False"

fun negative :: "npfloat \<Rightarrow> bool" where
  "negative (Fin r) = (r < 0)"
| "negative NegZero = True"
| "negative NInf = True"
| "negative _ = False"

fun finite_value :: "npfloat \<Rightarrow> real option" where
  "finite_value (Fin r) = Some r"
| "finite_value NegZero = Some 0"
| "finite_value _ = None"

text \<open>
  IEEE 754 division as numpy performs it element-wise: no exception is raised; a zero
  divisor gives a signed infinity, or NaN when the dividend is zero as well.
\<close>

definition fdiv :: "npfloat \<Rightarrow> npfloat \<Rightarrow> npfloat" where
  "fdiv x y =
     (if x = NaN \<or> y = NaN then NaN
      else if (is_zero x \<and> is_zero y) \<or> (is_inf x \<and> is_inf y) then NaN
      else if is_inf x \<or> is_zero y then (if negative x \<noteq> negative y then NInf else PInf)
      else if is_zero x \<or> is_inf y then (if negative x \<noteq> negative y then NegZero else Fin 0)
      else Fin (the (finite_value x) / the (finite_value y)))"

text \<open>A two-dimensional array is the list of its rows.\<close>

type_synonym 'a array2 = "'a list list"
type_synonym image = "real array2"

definition shape :: "'a array2 \<Rightarrow> nat \<times> nat" where
  "shape a = (length a, if a = [] then 0 else length (hd a))"

definition rectangular :: "'a array2 \<Rightarrow> bool" where
  "rectangular a = list_all (\<lambda>r. length r = snd (shape a)) a"

text \<open>
  numpy broadcasting of two axis lengths: equal lengths are kept, an axis of length 1 is
  stretched to the other length, anything else is an error.
\<close>

definition broadcast_dim :: "nat \<Rightarrow> nat \<Rightarrow> nat option" where
  "broadcast_dim m n =
     (if m = n then Some m else if m = 1 then Some n else if n = 1 then Some m else None)"

definition broadcast_shapes :: "nat \<times> nat \<Rightarrow> nat \<times> nat \<Rightarrow> (nat \<times> nat) option" where
  "broadcast_shapes s t =
     (case broadcast_dim (fst s) (fst t) of
        None \<Rightarrow> None
      | Some h \<Rightarrow>
          (case broadcast_dim (snd s) (snd t) of
             None \<Rightarrow> None
           | Some w \<Rightarrow> Some (h, w)))"

definition stretch :: "nat \<Rightarrow> 'a list \<Rightarrow> 'a list" where
  "stretch n xs = (if length xs = n then xs else replicate n (hd xs))"

definition broadcast_to :: "nat \<Rightarrow> nat \<Rightarrow> 'a array2 \<Rightarrow> 'a array2" where
  "broadcast_to h w a = stretch h (map (stretch w) a)"

text \<open>
  An element-wise binary operation on two arrays (\<^verbatim>\<open>a - b\<close>, \<^verbatim>\<open>a / b\<close>): the shapes are
  broadcast against each other, and shapes that cannot be broadcast raise
  \<^verbatim>\<open>ValueError\<close>. There is no check that the shapes are equal.
\<close>

definition np_binop :: "('a \<Rightarrow> 'b \<Rightarrow> 'c) \<Rightarrow> 'a array2 \<Rightarrow> 'b array2 \<Rightarrow> py_error + 'c array2" where
  "np_binop f a b =
     (case broadcast_shapes (shape a) (shape b) of
        None \<Rightarrow> Inl ValueError
      | Some (h, w) \<Rightarrow> Inr (map2 (map2 f) (broadcast_to h w a) (broadcast_to h w b)))"

section \<open>Statistics of a list of samples\<close>

definition mean :: "real list \<Rightarrow> real" where
  "mean xs = sum_list xs / real (length xs)"

text \<open>
  The median of a sorted list: the middle sample, or the mean of the two middle samples
  when the count is even.
\<close>

definition median_sorted :: "real list \<Rightarrow> real" where
  "median_sorted s =
     (let n = length s in
      if n mod 2 = 1 then s ! (n div 2)
      else (s ! (n div 2 - 1) + s ! (n div 2)) / 2)"

definition median :: "real list \<Rightarrow> real" where
  "median xs = median_sorted (sort xs)"

text \<open>\<^verbatim>\<open>np.median\<close> of a whole array flattens it; the median of no samples is NaN.\<close>

definition np_median :: "image \<Rightarrow> npfloat" where
  "np_median a = (if concat a = [] then NaN else Fin (median (concat a)))"

section \<open>Frame combination: \<^verbatim>\<open>load_and_combine\<close>\<close>

text \<open>
  The FITS files on disk: a path names an image or nothing. \<^verbatim>\<open>CCDData.read\<close> of a
  missing path raises.
\<close>

type_synonym filesystem = "string \<rightharpoonup> image"

definition ccd_read :: "filesystem \<Rightarrow> string \<Rightarrow> py_error + image" where
  "ccd_read fs file = (case fs file of None \<Rightarrow> Inl FileNotFoundError | Some img \<Rightarrow> Inr img)"

text \<open>
  \<^verbatim>\<open>ccd.subtract(dark_frame)\<close> subtracts the data arrays with numpy, hence with
  broadcasting.
\<close>

definition ccd_subtract :: "image \<Rightarrow> image \<Rightarrow> py_error + image" where
  "ccd_subtract ccd dark_frame = np_binop (\<lambda>x y. x - y) ccd dark_frame"

text \<open>
  The loop of \<^verbatim>\<open>load_and_combine\<close> (lines 32 to 36): each file is read, the dark frame is
  subtracted when one is given, and the frame is appended; the first exception ends the
  loop.
\<close>

fun load_frames :: "filesystem \<Rightarrow> string list \<Rightarrow> image option \<Rightarrow> py_error + image list" where
  "load_frames fs [] dark_frame = Inr []"
| "load_frames fs (file # files) dark_frame =
     (case ccd_read fs file of
        Inl e \<Rightarrow> Inl e
      | Inr ccd \<Rightarrow>
          (case (case dark_frame of None \<Rightarrow> Inr ccd | Some d \<Rightarrow> ccd_subtract ccd d) of
             Inl e \<Rightarrow> Inl e
           | Inr ccd' \<Rightarrow>
               (case load_frames fs files dark_frame of
                  Inl e \<Rightarrow> Inl e
                | Inr ccd_list \<Rightarrow> Inr (ccd' # ccd_list))))"

text \<open>
  \<^verbatim>\<open>Combiner(ccd_list)\<close>: the constructor raises \<^verbatim>\<open>TypeError\<close> when a frame's shape
  differs from the shape of the first frame, and also on an empty list, where it has no
  shape to build its stack from.
\<close>

definition Combiner :: "image list \<Rightarrow> py_error + image list" where
  "Combiner ccd_list =
     (if ccd_list = [] then Inl TypeError
      else if list_all (\<lambda>ccd. shape ccd = shape (hd ccd_list)) ccd_list then Inr ccd_list
      else Inl TypeError)"

text \<open>The samples of all frames of the stack at one pixel position.\<close>

definition pixel_stack :: "image list \<Rightarrow> nat \<Rightarrow> nat \<Rightarrow> real list" where
  "pixel_stack stack i j = map (\<lambda>ccd. ccd ! i ! j) stack"

definition combine_with :: "(real list \<Rightarrow> real) \<Rightarrow> image list \<Rightarrow> image" where
  "combine_with f stack =
     (let (h, w) = shape (hd stack) in
      map (\<lambda>i. map (\<lambda>j. f (pixel_stack stack i j)) [0..<w]) [0..<h])"

definition average_combine :: "image list \<Rightarrow> image" where
  "average_combine stack = combine_with mean stack"

definition median_combine :: "image list \<Rightarrow> image" where
  "median_combine stack = combine_with median stack"

text \<open>
  \<^verbatim>\<open>load_and_combine(file_list, combine_method, dark_frame)\<close>. A method other than
  \<^verbatim>\<open>'average'\<close> and \<^verbatim>\<open>'median'\<close> leaves \<^verbatim>\<open>combined_data\<close> unbound at the return.
\<close>

definition load_and_combine ::
  "filesystem \<Rightarrow> string list \<Rightarrow> string \<Rightarrow> image option \<Rightarrow> py_error + image" where
  "load_and_combine fs file_list combine_method dark_frame =
     (case load_frames fs file_list dark_frame of
        Inl e \<Rightarrow> Inl e
      | Inr ccd_list \<Rightarrow>
          (case Combiner ccd_list of
             Inl e \<Rightarrow> Inl e
           | Inr stack \<Rightarrow>
               if combine_method = ''average'' then Inr (average_combine stack)
               else if combine_method = ''median'' then Inr (median_combine stack)
               else Inl UnboundLocalError))"

section \<open>Calibration: lines 109 to 111\<close>

text \<open>
  \<^verbatim>\<open>combined_flat / np.median(combined_flat)\<close>, then \<^verbatim>\<open>target_data - combined_dark.data\<close>,
  then the quotient of the two. None of the three statements tests a shape or a divisor.
\<close>

definition combined_flat_normalized :: "image \<Rightarrow> npfloat array2" where
  "combined_flat_normalized combined_flat =
     map (map (\<lambda>x. fdiv (Fin x) (np_median combined_flat))) combined_flat"

definition corrected_image :: "image \<Rightarrow> image \<Rightarrow> image \<Rightarrow> py_error + npfloat array2" where
  "corrected_image target_data combined_dark combined_flat =
     (case np_binop (\<lambda>x y. x - y) target_data combined_dark of
        Inl e \<Rightarrow> Inl e
      | Inr target_minus_dark \<Rightarrow>
          np_binop (\<lambda>x y. fdiv (Fin x) y) target_minus_dark
            (combined_flat_normalized combined_flat))"

text \<open>
  The calibration as the specification words it: pixel by pixel, the dark-subtracted raw
  sample divided by the flat sample normalized by the flat's median.
\<close>

definition spec_apply :: "image \<Rightarrow> image \<Rightarrow> image \<Rightarrow> npfloat array2" where
  "spec_apply raw darkMaster flatMaster =
     map (\<lambda>i. map (\<lambda>j.
            fdiv (Fin (raw ! i ! j - darkMaster ! i ! j))
                 (fdiv (Fin (flatMaster ! i ! j)) (np_median flatMaster)))
          [0..<snd (shape raw)])
       [0..<fst (shape raw)]"

section \<open>The combination as the specification words it\<close>

text \<open>
  The sample that a reference frame contributes at a pixel (nothing when there is no
  reference), the samples of all input files at a pixel after the reference is
  subtracted, and the master frame that applies a statistic to them pixel by pixel.
\<close>

definition reference_sample :: "image option \<Rightarrow> nat \<Rightarrow> nat \<Rightarrow> real" where
  "reference_sample reference i j = (case reference of None \<Rightarrow> 0 | Some d \<Rightarrow> d ! i ! j)"

definition spec_samples :: "filesystem \<Rightarrow> string list \<Rightarrow> image option \<Rightarrow> nat \<Rightarrow> nat \<Rightarrow> real list" where
  "spec_samples fs file_list reference i j =
     map (\<lambda>file. the (fs file) ! i ! j - reference_sample reference i j) file_list"

definition spec_combine ::
  "(real list \<Rightarrow> real) \<Rightarrow> filesystem \<Rightarrow> string list \<Rightarrow> image option \<Rightarrow> nat \<Rightarrow> nat \<Rightarrow> image" where
  "spec_combine f fs file_list reference h w =
     map (\<lambda>i. map (\<lambda>j. f (spec_samples fs file_list reference i j)) [0..<w]) [0..<h]"

definition same_shape_input :: "filesystem \<Rightarrow> string list \<Rightarrow> image option \<Rightarrow> nat \<Rightarrow> nat \<Rightarrow> bool" where
  "same_shape_input fs file_list reference h w =
     (list_all (\<lambda>file. case fs file of None \<Rightarrow> False
                       | Some img \<Rightarrow> rectangular img \<and> shape img = (h, w)) file_list \<and>
      (case reference of None \<Rightarrow> True | Some d \<Rightarrow> rectangular d \<and> shape d = (h, w)))"

definition subtract_reference :: "image option \<Rightarrow> image \<Rightarrow> image" where
  "subtract_reference reference img =
     (case reference of None \<Rightarrow> img | Some d \<Rightarrow> map2 (map2 (\<lambda>x y. x - y)) img d)"

text \<open>Input files for the scenarios of the specification.\<close>

definition two_flats :: filesystem where
  "two_flats = [''f1'' \<mapsto> [[100, 100, 100]], ''f2'' \<mapsto> [[102, 98, 100]]]"

definition three_frames :: filesystem where
  "three_frames = [''a'' \<mapsto> [[1, 9]], ''b'' \<mapsto> [[5, 2]], ''c'' \<mapsto> [[3, 4]]]"

section \<open>The average as binary64 computes it\<close>

text \<open>
  \<open>average_combine\<close> above is the statistic in exact arithmetic. The frames are arrays
  of binary64 numbers, and the average adds them along the stack in the order of the
  list, rounding after each addition, and divides the sum by the number of frames,
  rounding once more. \<open>binary64 x\<close> is the binary64 number nearest to \<open>x\<close>, ties going to
  the even significand: \<open>x\<close> is scaled by a power of two to a significand of 53 bits,
  rounded to an integer and scaled back. Overflow and the subnormal range are left out.
\<close>

definition round_even :: "real \<Rightarrow> int" where
  "round_even x =
     (let n = \<lfloor>x\<rfloor>; r = x - of_int n in
      if r < 1 / 2 then n else if 1 / 2 < r then n + 1 else if even n then n else n + 1)"

definition pow2 :: "int \<Rightarrow> real" where
  "pow2 e = (if 0 \<le> e then 2 ^ nat e else 1 / 2 ^ nat (- e))"

definition binary64 :: "real \<Rightarrow> real" where
  "binary64 x =
     (if x = 0 then 0
      else let e = \<lfloor>log 2 \<bar>x\<bar>\<rfloor> - 52 in of_int (round_even (x / pow2 e)) * pow2 e)"

definition sum64 :: "real list \<Rightarrow> real" where
  "sum64 xs = foldl (\<lambda>acc x. binary64 (acc + x)) 0 xs"

definition mean64 :: "real list \<Rightarrow> real" where
  "mean64 xs = binary64 (sum64 xs / real (length xs))"

definition average_combine64 :: "image list \<Rightarrow> image" where
  "average_combine64 stack = combine_with mean64 stack"

text \<open>The running sum at every pixel of a stack is exact: no addition rounds.\<close>

definition exact_sums :: "image list \<Rightarrow> bool" where
  "exact_sums stack =
     (let (h, w) = shape (hd stack) in
      list_all (\<lambda>i. list_all (\<lambda>j. sum64 (pixel_stack stack i j) = sum_list (pixel_stack stack i j))
                  [0..<w]) [0..<h])"

text \<open>
  Three files of one pixel each, holding the binary64 numbers nearest to 0.1, 0.2 and
  0.3.
\<close>

definition tenths :: filesystem where
  "tenths = [''a'' \<mapsto> [[3602879701896397 / 36028797018963968]],
             ''b'' \<mapsto> [[3602879701896397 / 18014398509481984]],
             ''c'' \<mapsto> [[5404319552844595 / 18014398509481984]]]"

section \<open>Shapes that can be broadcast\<close>

text \<open>
  The shape that lines 110 and 111 give the corrected image: the raw and dark shapes
  broadcast against each other, then against the flat's shape.
\<close>

definition broadcast3 :: "nat \<times> nat \<Rightarrow> nat \<times> nat \<Rightarrow> nat \<times> nat \<Rightarrow> (nat \<times> nat) option" where
  "broadcast3 r d f =
     (case broadcast_shapes r d of None \<Rightarrow> None | Some s \<Rightarrow> broadcast_shapes s f)"

text \<open>Two files whose images differ in shape, for a scenario.\<close>

definition mixed_shapes :: filesystem where
  "mixed_shapes = [''a'' \<mapsto> [[1, 2]], ''b'' \<mapsto> [[1], [2]]]"

text \<open>
  The shape that line 35 gives a frame: the image's own shape when there is no dark frame
  to subtract, else the image's shape broadcast against the dark frame's; \<open>None\<close> when
  they cannot be broadcast.
\<close>

definition frame_shape :: "image option \<Rightarrow> image \<Rightarrow> (nat \<times> nat) option" where
  "frame_shape dark_frame img =
     (case dark_frame of
        None \<Rightarrow> Some (shape img)
      | Some d \<Rightarrow> broadcast_shapes (shape img) (shape d))"

text \<open>A flat of shape 2 by 2, for a scenario with a dark of shape 1 by 2.\<close>

definition wide_dark :: filesystem where
  "wide_dark = [''flat'' \<mapsto> [[14, 14], [14, 14]]]"

section \<open>Polling the plate-solving service\<close>

text \<open>
  A value decoded by \<^verbatim>\<open>response.json()\<close>: any JSON value, an object being a Python
  dictionary from strings to values.
\<close>

datatype json =
    JNull
  | JBool bool
  | JNum real
  | JStr string
  | JList "json list"
  | JDict "string \<Rightarrow> json option"

text \<open>
  What one status request meets: \<^verbatim>\<open>requests.get\<close> raises because the service cannot be
  reached, or it returns a response, of which the loop looks at whether the HTTP status
  passes \<^verbatim>\<open>raise_for_status\<close> and at the decoded body (\<open>None\<close> when the body is not
  JSON).
\<close>

datatype status_reply =
    NoConnection
  | Response bool "json option"

text \<open>Python's truth value of a decoded value, as the \<^verbatim>\<open>if\<close> of line 78 takes it.\<close>

fun truthy :: "json \<Rightarrow> bool" where
  "truthy JNull = False"
| "truthy (JBool b) = b"
| "truthy (JNum n) = (n \<noteq> 0)"
| "truthy (JStr s) = (s \<noteq> [])"
| "truthy (JList l) = (l \<noteq> [])"
| "truthy (JDict d) = (dom d \<noteq> {})"

text \<open>
  The subscript \<^verbatim>\<open>[0]\<close> of line 79: the first entry of a list, the first character of a
  string, a \<^verbatim>\<open>KeyError\<close> on a dictionary (a decoded object has string keys only) and a
  \<^verbatim>\<open>TypeError\<close> on a value that cannot be subscripted.
\<close>

fun first_entry :: "json \<Rightarrow> py_error + json" where
  "first_entry (JList l) = (case l of [] \<Rightarrow> Inl IndexError | job # _ \<Rightarrow> Inr job)"
| "first_entry (JStr s) = (case s of [] \<Rightarrow> Inl IndexError | c # _ \<Rightarrow> Inr (JStr [c]))"
| "first_entry (JDict d) = Inl KeyError"
| "first_entry JNull = Inl TypeError"
| "first_entry (JBool b) = Inl TypeError"
| "first_entry (JNum n) = Inl TypeError"

text \<open>\<^verbatim>\<open>result.get('jobs', [])\<close> on a dictionary.\<close>

definition get_jobs :: "(string \<Rightarrow> json option) \<Rightarrow> json" where
  "get_jobs result = (case result ''jobs'' of None \<Rightarrow> JList [] | Some v \<Rightarrow> v)"

text \<open>
  Lines 75 to 81: what one reply makes the loop do. \<open>Some (Inr job)\<close> is the return of
  line 79, \<open>Some (Inl e)\<close> an exception leaving the loop, and \<open>None\<close> is falling through
  to the sleep of line 82. A decoded body that is not a dictionary has no \<^verbatim>\<open>get\<close>.
\<close>

fun examine :: "status_reply \<Rightarrow> (py_error + json) option" where
  "examine NoConnection = Some (Inl ConnectionError)"
| "examine (Response ok body) =
     (if \<not> ok then Some (Inl HTTPError)
      else case body of
        None \<Rightarrow> Some (Inl JSONDecodeError)
      | Some (JDict result) \<Rightarrow>
          if truthy (get_jobs result) then Some (first_entry (get_jobs result))
          else if result ''status'' = Some (JStr ''failure'')
          then Some (Inl (Exception ''Submission failed: ''))
          else None
      | Some _ \<Rightarrow> Some (Inl AttributeError))"

text \<open>
  The effects of the loop: the number of status requests sent so far and the seconds
  slept so far.
\<close>

record poll_state =
  requests :: nat
  slept :: nat

text \<open>
  \<^verbatim>\<open>check_submission_status\<close>, lines 74 to 82, against a service that answers the
  \<open>n\<close>-th request with \<open>server n\<close>. The loop is \<^verbatim>\<open>while True\<close>: the value \<open>None\<close>
  is a run that never returns.
\<close>

partial_function (option) check_submission_status ::
  "(nat \<Rightarrow> status_reply) \<Rightarrow> poll_state \<Rightarrow> ((py_error + json) \<times> poll_state) option" where
  "check_submission_status server s =
     (let result = server (requests s); s' = s\<lparr>requests := Suc (requests s)\<rparr> in
      case examine result of
        Some outcome \<Rightarrow> Some (outcome, s')
      | None \<Rightarrow> check_submission_status server (s'\<lparr>slept := slept s' + 30\<rparr>))"

text \<open>The state before the first request, and replies for the scenarios.\<close>

definition start :: poll_state where
  "start = \<lparr>requests = 0, slept = 0\<rparr>"

definition pending_reply :: status_reply where
  "pending_reply = Response True (Some (JDict [''jobs'' \<mapsto> JList []]))"

definition failure_reply :: status_reply where
  "failure_reply =
     Response True (Some (JDict [''jobs'' \<mapsto> JList [], ''status'' \<mapsto> JStr ''failure'']))"

definition job_reply :: status_reply where
  "job_reply =
     Response True (Some (JDict [''jobs'' \<mapsto> JList [JNum 7], ''status'' \<mapsto> JStr ''failure'']))"

definition queued_failure_reply :: status_reply where
  "queued_failure_reply =
     Response True (Some (JDict [''jobs'' \<mapsto> JList [JNull], ''status'' \<mapsto> JStr ''failure'']))"

definition fails_third :: "nat \<Rightarrow> status_reply" where
  "fails_third n = (if n = 2 then failure_reply else pending_reply)"

definition job_third :: "nat \<Rightarrow> status_reply" where
  "job_third n = (if n = 2 then job_reply else pending_reply)"

section \<open>The script up to the submission\<close>

text \<open>
  The replies of the service to the two requests made before polling: for each, whether
  the HTTP status passes \<^verbatim>\<open>raise_for_status\<close> and the value under \<^verbatim>\<open>'session'\<close>, resp.
  \<^verbatim>\<open>'subid'\<close>, if the key is present.
\<close>

record service =
  login_reply :: "bool \<times> string option"
  upload_reply :: "bool \<times> nat option"

definition astrometry_login :: "service \<Rightarrow> py_error + string" where
  "astrometry_login srv =
     (if \<not> fst (login_reply srv) then Inl HTTPError
      else case snd (login_reply srv) of
             None \<Rightarrow> Inl (Exception ''Failed to obtain session key from Astrometry.net: '')
           | Some session \<Rightarrow> Inr session)"

text \<open>
  What the script acts on: the files on disk and the file contents that have been posted
  to the service, in order.
\<close>

record world =
  files :: filesystem
  uploads :: "image list"

text \<open>
  \<^verbatim>\<open>submit_fits_file\<close>: the file at the path is opened and posted; the reply is examined
  after the post.
\<close>

definition submit_fits_file ::
  "service \<Rightarrow> string \<Rightarrow> string \<Rightarrow> world \<Rightarrow> (py_error + nat) \<times> world" where
  "submit_fits_file srv session_key fits_file_path w =
     (case files w fits_file_path of
        None \<Rightarrow> (Inl FileNotFoundError, w)
      | Some content \<Rightarrow>
          (let w' = w\<lparr>uploads := uploads w @ [content]\<rparr> in
           if \<not> fst (upload_reply srv) then (Inl HTTPError, w')
           else case snd (upload_reply srv) of
                  None \<Rightarrow> (Inl (Exception ''Failed to submit FITS file to Astrometry.net: ''), w')
                | Some subid \<Rightarrow> (Inr subid, w')))"

definition flat_field_paths :: "string list" where
  "flat_field_paths = [''Calibration-0001flat-g-15s.fit'', ''Calibration-0001flat-g-20s.fit'']"

definition dark_frame_paths :: "string list" where
  "dark_frame_paths = [''calibration-0001D-15.fit'', ''calibration-0001D-20.fit'']"

definition target_path :: string where
  "target_path = ''at2024ajf-0001g.fit''"

definition fits_file_path :: string where
  "fits_file_path = ''processed_image.fits''"

text \<open>
  The script from line 92 to line 116: login, the two master frames, the target file, the
  calibration of lines 109 to 111, then \<^verbatim>\<open>target_fits.writeto\<close> and the submission.
  \<^verbatim>\<open>target_data\<close> is a copy made by \<^verbatim>\<open>astype\<close>, so \<^verbatim>\<open>target_fits\<close> still holds the
  pixels that were read. The variable \<open>corrected\<close> is bound and not used by the two
  statements that follow.
\<close>

definition calibrate_and_submit :: "service \<Rightarrow> world \<Rightarrow> (py_error + nat) \<times> world" where
  "calibrate_and_submit srv w =
     (case astrometry_login srv of
        Inl e \<Rightarrow> (Inl e, w)
      | Inr session_key \<Rightarrow>
     (case load_and_combine (files w) dark_frame_paths ''median'' None of
        Inl e \<Rightarrow> (Inl e, w)
      | Inr combined_dark \<Rightarrow>
     (case load_and_combine (files w) flat_field_paths ''median'' (Some combined_dark) of
        Inl e \<Rightarrow> (Inl e, w)
      | Inr combined_flat \<Rightarrow>
     (case files w target_path of
        None \<Rightarrow> (Inl FileNotFoundError, w)
      | Some target_fits \<Rightarrow>
     (case corrected_image target_fits combined_dark combined_flat of
        Inl e \<Rightarrow> (Inl e, w)
      | Inr corrected \<Rightarrow>
          submit_fits_file srv session_key fits_file_path
            (w\<lparr>files := (files w)(fits_file_path \<mapsto> target_fits)\<rparr>))))))"

text \<open>A run for the scenarios: a service that accepts, and five one-pixel files.\<close>

definition good_service :: service where
  "good_service = \<lparr>login_reply = (True, Some ''key''), upload_reply = (True, Some 7)\<rparr>"

definition observation :: filesystem where
  "observation =
     [''calibration-0001D-15.fit'' \<mapsto> [[10]], ''calibration-0001D-20.fit'' \<mapsto> [[12]],
      ''Calibration-0001flat-g-15s.fit'' \<mapsto> [[15]], ''Calibration-0001flat-g-20s.fit'' \<mapsto> [[17]],
      ''at2024ajf-0001g.fit'' \<mapsto> [[50]]]"

definition before_run :: world where
  "before_run = \<lparr>files = observation, uploads = []\<rparr>"

definition after_run :: world where
  "after_run = \<lparr>files = observation(fits_file_path \<mapsto> [[50]]), uploads = [[[50]]]\<rparr>"

section \<open>Sky coordinates: lines 121 to 124 and 138\<close>

text \<open>
  The \<^verbatim>\<open>'calibration'\<close> entry of the job information: the sky position of the solved
  field in degrees and the pixel scale in arc seconds per pixel.
\<close>

record calibration =
  ra :: real
  dec :: real
  pixscale :: real

text \<open>
  The fields of the \<^verbatim>\<open>WCS\<close> object that lines 121 to 124 leave or set. The projection
  is \<^verbatim>\<open>TAN\<close> on both axes; \<^verbatim>\<open>crpix\<close> is never assigned and keeps the value 0 that
  \<^verbatim>\<open>WCS(naxis = 2)\<close> gives it. \<^verbatim>\<open>crpix\<close> counts pixels from 1, as FITS does.
\<close>

record wcs =
  crpix :: "real \<times> real"
  crval :: "real \<times> real"
  cdelt :: "real \<times> real"


text \<open>
  The transformation of \<^verbatim>\<open>all_pix2world\<close> for a \<^verbatim>\<open>TAN\<close> projection without
  distortion, over exact reals, in degrees: the offset from the reference pixel scaled by
  \<^verbatim>\<open>cdelt\<close>, the gnomonic deprojection to native longitude and latitude, and the
  rotation that puts the native pole at \<^verbatim>\<open>crval\<close>.
\<close>

definition sind :: "real \<Rightarrow> real" where
  "sind a = sin (a * pi / 180)"

definition cosd :: "real \<Rightarrow> real" where
  "cosd a = cos (a * pi / 180)"

definition asind :: "real \<Rightarrow> real" where
  "asind v = arcsin v * 180 / pi"

definition atan2 :: "real \<Rightarrow> real \<Rightarrow> real" where
  "atan2 y x =
     (if 0 < x then arctan (y / x)
      else if x < 0 \<and> 0 \<le> y then arctan (y / x) + pi
      else if x < 0 then arctan (y / x) - pi
      else if 0 < y then pi / 2
      else if y < 0 then - pi / 2
      else 0)"

definition atan2d :: "real \<Rightarrow> real \<Rightarrow> real" where
  "atan2d y x = atan2 y x * 180 / pi"

definition tan_x2s :: "real \<times> real \<Rightarrow> real \<times> real" where
  "tan_x2s xy =
     (let x = fst xy; y = snd xy; r = sqrt (x * x + y * y) in
      (if r = 0 then 0 else atan2d x (- y), atan2d (180 / pi) r))"

definition lonpole :: "wcs \<Rightarrow> real" where
  "lonpole w = (if 90 \<le> snd (crval w) then 0 else 180)"

definition normalize_lng :: "real \<Rightarrow> real \<Rightarrow> real" where
  "normalize_lng alpha_p lng =
     (let l = (if 0 \<le> alpha_p then (if lng < 0 then lng + 360 else lng)
               else (if 0 < lng then lng - 360 else lng))
      in if 360 < l then l - 360 else if l < - 360 then l + 360 else l)"

definition sph_x2s :: "wcs \<Rightarrow> real \<times> real \<Rightarrow> real \<times> real" where
  "sph_x2s w native =
     (let phi = fst native; theta = snd native;
          alpha_p = fst (crval w); delta_p = snd (crval w);
          dphi = phi - lonpole w;
          x = sind theta * cosd delta_p - cosd theta * sind delta_p * cosd dphi;
          y = - cosd theta * sind dphi;
          dlng = (if x \<noteq> 0 \<or> y \<noteq> 0 then atan2d y x
                  else if 0 < delta_p then dphi + 180 else - dphi)
      in (normalize_lng alpha_p (alpha_p + dlng),
          asind (sind theta * sind delta_p + cosd theta * cosd delta_p * cosd dphi)))"

text \<open>
  The argument \<open>origin\<close> says where the caller's pixel numbering starts: a caller that
  counts from 0 has 1 added to its pixel coordinates.
\<close>

definition pix2world :: "wcs \<Rightarrow> real \<Rightarrow> real \<times> real \<Rightarrow> real \<times> real" where
  "pix2world w origin pixel =
     (let p1 = fst pixel + (1 - origin); p2 = snd pixel + (1 - origin);
          x = fst (cdelt w) * (p1 - fst (crpix w));
          y = snd (cdelt w) * (p2 - snd (crpix w))
      in sph_x2s w (tan_x2s (x, y)))"

text \<open>A zero \<^verbatim>\<open>cdelt\<close> makes the linear transformation singular, which raises.\<close>

definition all_pix2world :: "wcs \<Rightarrow> (real \<times> real) list \<Rightarrow> real \<Rightarrow> py_error + (real \<times> real) list" where
  "all_pix2world w positions origin =
     (if fst (cdelt w) = 0 \<or> snd (cdelt w) = 0 then Inl SingularMatrixError
      else Inr (map (pix2world w origin) positions))"





section \<open>Detection, photometry and projection: lines 128 to 138\<close>

text \<open>
  A row of the table that \<^verbatim>\<open>DAOStarFinder\<close> returns, with the two columns the script
  reads. The finder returns a table with at least one row, or \<^verbatim>\<open>None\<close> when it finds no
  source.
\<close>

record star =
  xcentroid :: real
  ycentroid :: real

type_synonym star_table = "(star \<times> star list) option"

text \<open>
  Line 133: \<^verbatim>\<open>stars['xcentroid']\<close> subscripts the finder's result, which raises
  \<^verbatim>\<open>TypeError\<close> on \<^verbatim>\<open>None\<close>.
\<close>

definition source_positions :: "star_table \<Rightarrow> py_error + (real \<times> real) list" where
  "source_positions stars =
     (case stars of
        None \<Rightarrow> Inl TypeError
      | Some (first, rest) \<Rightarrow> Inr (map (\<lambda>s. (xcentroid s, ycentroid s)) (first # rest)))"

text \<open>
  Lines 128 to 138. The finder with the script's parameters and the aperture photometry
  are parameters of the model; the projection is \<^verbatim>\<open>all_pix2world\<close> with origin 0.
\<close>

definition detect_measure_project ::
  "(npfloat array2 \<Rightarrow> star_table) \<Rightarrow> (npfloat array2 \<Rightarrow> (real \<times> real) list \<Rightarrow> 'p) \<Rightarrow> wcs \<Rightarrow>
     npfloat array2 \<Rightarrow> py_error + 'p \<times> (real \<times> real) list" where
  "detect_measure_project daofind aperture_photometry w corrected =
     (case source_positions (daofind corrected) of
        Inl e \<Rightarrow> Inl e
      | Inr positions \<Rightarrow>
          (let phot_table = aperture_photometry corrected positions in
           case all_pix2world w positions 0 of
             Inl e \<Rightarrow> Inl e
           | Inr sky_coords \<Rightarrow> Inr (phot_table, sky_coords)))"

text \<open>Finders and a photometry for the scenarios.\<close>

definition finds_nothing :: "npfloat array2 \<Rightarrow> star_table" where
  "finds_nothing img = None"

definition finds_one :: "npfloat array2 \<Rightarrow> star_table" where
  "finds_one img = Some (\<lparr>xcentroid = - 1, ycentroid = - 1\<rparr>, [])"

definition count_apertures :: "npfloat array2 \<Rightarrow> (real \<times> real) list \<Rightarrow> nat" where
  "count_apertures img positions = length positions"

definition field_wcs :: wcs where
  "field_wcs = \<lparr>crpix = (0, 0), crval = (10, 20), cdelt = (2 / 3600, 2 / 3600)\<rparr>"

section \<open>Properties of the element-wise operations\<close>

lemma stretch_same: "length xs = n \<Longrightarrow> stretch n xs = xs"
  by (simp add: stretch_def)

lemma rectangular_row: "rectangular a \<Longrightarrow> r \<in> set a \<Longrightarrow> length r = snd (shape a)"
  by (simp add: rectangular_def list_all_iff)

lemma broadcast_to_same:
  assumes "rectangular a"
  shows "broadcast_to (fst (shape a)) (snd (shape a)) a = a"
proof -
  have "map (stretch (snd (shape a))) a = a"
    using assms by (intro map_idI) (simp add: rectangular_row stretch_same)
  then show ?thesis
    by (simp add: broadcast_to_def stretch_same shape_def)
qed

lemma broadcast_dim_same: "broadcast_dim n n = Some n"
  by (simp add: broadcast_dim_def)

lemma np_binop_same_shape:
  assumes "rectangular a" and "rectangular b" and "shape b = shape a"
  shows "np_binop f a b = Inr (map2 (map2 f) a b)"
  using assms broadcast_to_same [of a] broadcast_to_same [of b]
  by (simp add: np_binop_def broadcast_shapes_def broadcast_dim_same case_prod_beta)

lemma map2_nth2:
  assumes "i < length a" and "i < length b" and "j < length (a ! i)" and "j < length (b ! i)"
  shows "map2 (map2 f) a b ! i ! j = f (a ! i ! j) (b ! i ! j)"
  using assms by simp

lemma shape_map2:
  assumes "shape b = shape a"
  shows "shape (map2 (map2 f) a b) = shape a"
  using assms by (cases a; cases b) (auto simp: shape_def)

lemma rectangular_map2:
  assumes "rectangular a" and "rectangular b" and "shape b = shape a"
  shows "rectangular (map2 (map2 f) a b)"
proof -
  have "length r = snd (shape a)" if "r \<in> set (map2 (map2 f) a b)" for r
  proof -
    from that obtain x y where "(x, y) \<in> set (zip a b)" and r: "r = map2 f x y"
      by auto
    then have "x \<in> set a" and "y \<in> set b"
      by (auto dest: set_zip_leftD set_zip_rightD)
    with assms r show ?thesis
      by (simp add: rectangular_row)
  qed
  then show ?thesis
    using assms(3) by (simp add: rectangular_def list_all_iff shape_map2 del: set_map)
qed

lemma shape_map_map: "shape (map (map f) a) = shape a"
  by (cases a) (simp_all add: shape_def)

lemma rectangular_map_map: "rectangular a \<Longrightarrow> rectangular (map (map f) a)"
  by (simp add: rectangular_def list_all_iff shape_map_map)


lemma row_length: "rectangular a \<Longrightarrow> i < length a \<Longrightarrow> length (a ! i) = snd (shape a)"
  by (simp add: rectangular_row)

lemma length_eq_shape: "shape b = shape a \<Longrightarrow> length b = length a"
  by (simp add: shape_def)

lemma corrected_image_same_shape:
  assumes "rectangular raw" and "rectangular dark" and "rectangular flat"
    and "shape dark = shape raw" and "shape flat = shape raw"
  shows "corrected_image raw dark flat =
           Inr (map2 (map2 (\<lambda>x y. fdiv (Fin x) y)) (map2 (map2 (\<lambda>x y. x - y)) raw dark)
                  (combined_flat_normalized flat))"
proof -
  let ?nf = "combined_flat_normalized flat"
  let ?tmd = "map2 (map2 (\<lambda>x y. x - y)) raw dark"
  have nf: "rectangular ?nf" "shape ?nf = shape raw"
    using assms by (simp_all add: combined_flat_normalized_def rectangular_map_map shape_map_map)
  have tmd: "rectangular ?tmd" "shape ?tmd = shape raw"
    using assms by (simp_all add: rectangular_map2 shape_map2)
  have "np_binop (\<lambda>x y. x - y) raw dark = Inr ?tmd"
    using assms by (simp add: np_binop_same_shape)
  moreover have "np_binop (\<lambda>x y. fdiv (Fin x) y) ?tmd ?nf = Inr (map2 (map2 (\<lambda>x y. fdiv (Fin x) y)) ?tmd ?nf)"
    using nf tmd by (simp add: np_binop_same_shape)
  ultimately show ?thesis
    by (simp add: corrected_image_def)
qed

lemma corrected_pixel:
  assumes "rectangular raw" and "rectangular dark" and "rectangular flat"
    and "shape dark = shape raw" and "shape flat = shape raw"
    and "i < fst (shape raw)" and "j < snd (shape raw)"
  shows "map2 (map2 (\<lambda>x y. fdiv (Fin x) y)) (map2 (map2 (\<lambda>x y. x - y)) raw dark)
           (combined_flat_normalized flat) ! i ! j =
         fdiv (Fin (raw ! i ! j - dark ! i ! j)) (fdiv (Fin (flat ! i ! j)) (np_median flat))"
proof -
  have i: "i < length raw" "i < length dark" "i < length flat"
    using assms by (simp_all add: shape_def)
  have j: "j < length (raw ! i)" "j < length (dark ! i)" "j < length (flat ! i)"
    using assms i by (simp_all add: row_length)
  show ?thesis
    using i j by (simp add: combined_flat_normalized_def)
qed

lemma corrected_image_spec_apply:
  assumes "rectangular raw" and "rectangular dark" and "rectangular flat"
    and "shape dark = shape raw" and "shape flat = shape raw"
  shows "corrected_image raw dark flat = Inr (spec_apply raw dark flat)"
proof -
  let ?c = "map2 (map2 (\<lambda>x y. fdiv (Fin x) y)) (map2 (map2 (\<lambda>x y. x - y)) raw dark)
              (combined_flat_normalized flat)"
  have len: "length ?c = fst (shape raw)"
    using assms by (simp add: shape_def combined_flat_normalized_def)
  have "?c ! i = spec_apply raw dark flat ! i" if "i < fst (shape raw)" for i
  proof (rule nth_equalityI)
    have i: "i < length raw" "i < length dark" "i < length flat"
      using assms that by (simp_all add: shape_def)
    show l: "length (?c ! i) = length (spec_apply raw dark flat ! i)"
      using i that assms by (simp add: spec_apply_def combined_flat_normalized_def row_length)
    fix j assume "j < length (?c ! i)"
    then have "j < snd (shape raw)"
      using l that by (simp add: spec_apply_def)
    then show "?c ! i ! j = spec_apply raw dark flat ! i ! j"
      using corrected_pixel [OF assms that] that by (simp add: spec_apply_def)
  qed
  then have "?c = spec_apply raw dark flat"
    using len by (intro nth_equalityI) (simp_all add: spec_apply_def)
  then show ?thesis
    using corrected_image_same_shape [OF assms] by simp
qed


lemma fdiv_finite:
  assumes "f \<noteq> 0" and "m \<noteq> 0"
  shows "finite_value (fdiv (Fin x) (fdiv (Fin f) (Fin m))) = Some (x / (f / m))"
  using assms by (simp add: fdiv_def)

lemma np_median_nonempty:
  assumes "i < length a" and "j < length (a ! i)"
  shows "np_median a = Fin (median (concat a))"
proof -
  have "a ! i \<in> set a" and "a ! i \<noteq> []"
    using assms by auto
  then have "concat a \<noteq> []"
    by auto
  then show ?thesis
    by (simp add: np_median_def)
qed

text \<open>
  Claim C1. For a raw image, a dark master and a flat master of equal shape the three
  statements of lines 109 to 111 raise nothing and return, pixel by pixel, the raw sample
  minus the dark sample, divided by the flat sample over the median of the flat. Where the
  flat sample and the median are not zero this is the real number
  \<open>(raw - dark) / (flat / median flat)\<close>.
\<close>

theorem corrected_image_formula:
  assumes "rectangular raw" and "rectangular dark" and "rectangular flat"
    and "shape dark = shape raw" and "shape flat = shape raw"
  shows "corrected_image raw dark flat = Inr (spec_apply raw dark flat) \<and>
         (\<forall>i<fst (shape raw). \<forall>j<snd (shape raw).
            flat ! i ! j \<noteq> 0 \<and> median (concat flat) \<noteq> 0 \<longrightarrow>
            finite_value (spec_apply raw dark flat ! i ! j) =
              Some ((raw ! i ! j - dark ! i ! j) / (flat ! i ! j / median (concat flat))))"
proof (intro conjI allI impI)
  show "corrected_image raw dark flat = Inr (spec_apply raw dark flat)"
    using assms by (rule corrected_image_spec_apply)
next
  fix i j
  assume i: "i < fst (shape raw)" and j: "j < snd (shape raw)"
    and nz: "flat ! i ! j \<noteq> 0 \<and> median (concat flat) \<noteq> 0"
  have "i < length flat"
    using i assms(5) by (simp add: shape_def)
  moreover from this have "j < length (flat ! i)"
    using j assms(3,5) by (simp add: row_length)
  ultimately have "np_median flat = Fin (median (concat flat))"
    by (rule np_median_nonempty)
  then show "finite_value (spec_apply raw dark flat ! i ! j) =
      Some ((raw ! i ! j - dark ! i ! j) / (flat ! i ! j / median (concat flat)))"
    using i j nz by (simp add: spec_apply_def fdiv_finite)
qed

text \<open>The scenario of the specification: raw 50, dark 10, flat 5 gives 40.\<close>

theorem corrected_image_formula_witness:
  "rectangular [[50]] \<and> rectangular [[10]] \<and> rectangular [[5]] \<and>
   shape [[10::real]] = shape [[50::real]] \<and> shape [[5::real]] = shape [[50::real]] \<and>
   corrected_image [[50]] [[10]] [[5]] = Inr [[Fin 40]] \<and>
   finite_value (spec_apply [[50]] [[10]] [[5]] ! 0 ! 0) = Some ((50 - 10) / (5 / 5))"
  using corrected_image_formula [of "[[50]]" "[[10]]" "[[5]]"]
  by (simp add: rectangular_def shape_def spec_apply_def np_median_def median_def
      median_sorted_def fdiv_def)

lemma fdiv_by_zero:
  assumes "is_zero d"
  shows "fdiv (Fin x) d =
           (if x = 0 then NaN else if (x < 0) \<noteq> negative d then NInf else PInf)"
  using assms by (cases d) (auto simp: fdiv_def)

text \<open>
  Claim C5, as the code behaves. At a pixel where the normalized flat is zero the division
  is carried out all the same: the corrected pixel is NaN when the dark-subtracted sample
  is zero and a signed infinity otherwise. The result is the image alone; nothing is
  substituted and nothing is counted.
\<close>

theorem zero_flat_pixel_propagates:
  assumes "rectangular raw" and "rectangular dark" and "rectangular flat"
    and "shape dark = shape raw" and "shape flat = shape raw"
    and "i < fst (shape raw)" and "j < snd (shape raw)"
    and "is_zero (combined_flat_normalized flat ! i ! j)"
  shows "\<exists>c. corrected_image raw dark flat = Inr c \<and>
           c ! i ! j =
             (if raw ! i ! j = dark ! i ! j then NaN
              else if (raw ! i ! j < dark ! i ! j) \<noteq> negative (combined_flat_normalized flat ! i ! j)
                then NInf else PInf)"
proof -
  have i: "i < length flat" and j: "j < length (flat ! i)"
    using assms by (simp_all add: shape_def row_length)
  then have nf: "combined_flat_normalized flat ! i ! j = fdiv (Fin (flat ! i ! j)) (np_median flat)"
    by (simp add: combined_flat_normalized_def)
  have "spec_apply raw dark flat ! i ! j =
          fdiv (Fin (raw ! i ! j - dark ! i ! j)) (combined_flat_normalized flat ! i ! j)"
    using assms(6,7) nf by (simp add: spec_apply_def)
  then show ?thesis
    using corrected_image_spec_apply [OF assms(1-5)] fdiv_by_zero [OF assms(8)] by simp
qed

theorem zero_flat_pixel_propagates_witness:
  "rectangular [[50, 50]] \<and> rectangular [[10, 10]] \<and> rectangular [[0, 5]] \<and>
   is_zero (combined_flat_normalized [[0, 5]] ! 0 ! 0) \<and>
   (\<exists>c. corrected_image [[50, 50]] [[10, 10]] [[0, 5]] = Inr c \<and> c ! 0 ! 0 = PInf)"
  using zero_flat_pixel_propagates [of "[[50, 50]]" "[[10, 10]]" "[[0, 5]]" 0 0]
  by (simp add: rectangular_def shape_def combined_flat_normalized_def np_median_def median_def
      median_sorted_def fdiv_def)

text \<open>
  Claim C5 as stated fails: with a flat of 0 and 5 the first normalized pixel is zero and
  the corrected image carries an infinity there.
\<close>

theorem zero_flat_pixel_counterexample:
  "is_zero (combined_flat_normalized [[0, 5]] ! 0 ! 0) \<and>
   corrected_image [[50, 50]] [[10, 10]] [[0, 5]] = Inr [[PInf, Fin 20]]"
  by (simp add: corrected_image_def np_binop_def broadcast_shapes_def shape_def broadcast_dim_def
      broadcast_to_def
      stretch_def combined_flat_normalized_def np_median_def median_def median_sorted_def fdiv_def)

section \<open>Properties of frame combination\<close>

lemma subtract_reference_shape:
  assumes "rectangular img" and "shape img = (h, w)"
    and "case reference of None \<Rightarrow> True | Some d \<Rightarrow> rectangular d \<and> shape d = (h, w)"
  shows "shape (subtract_reference reference img) = (h, w)"
    and "rectangular (subtract_reference reference img)"
  using assms
  by (auto simp: subtract_reference_def shape_map2 rectangular_map2 split: option.splits)

lemma subtract_reference_pixel:
  assumes "rectangular img" and "shape img = (h, w)"
    and "case reference of None \<Rightarrow> True | Some d \<Rightarrow> rectangular d \<and> shape d = (h, w)"
    and "i < h" and "j < w"
  shows "subtract_reference reference img ! i ! j = img ! i ! j - reference_sample reference i j"
proof (cases reference)
  case None
  then show ?thesis by (simp add: subtract_reference_def reference_sample_def)
next
  case (Some d)
  with assms have d: "rectangular d" "shape d = (h, w)" by simp_all
  have "i < length img" "i < length d"
    using assms d by (simp_all add: shape_def)
  moreover from this have "j < length (img ! i)" "j < length (d ! i)"
    using assms d by (simp_all add: row_length)
  ultimately show ?thesis
    using Some by (simp add: subtract_reference_def reference_sample_def)
qed

lemma load_frames_same_shape:
  assumes "same_shape_input fs file_list reference h w"
  shows "load_frames fs file_list reference =
           Inr (map (\<lambda>file. subtract_reference reference (the (fs file))) file_list)"
  using assms
proof (induction file_list)
  case Nil
  then show ?case by simp
next
  case (Cons path files)
  then obtain img where img: "fs path = Some img" "rectangular img" "shape img = (h, w)"
    by (auto simp: same_shape_input_def split: option.splits)
  have rest: "same_shape_input fs files reference h w"
    using Cons.prems by (simp add: same_shape_input_def)
  have ref: "case reference of None \<Rightarrow> True | Some d \<Rightarrow> rectangular d \<and> shape d = (h, w)"
    using Cons.prems by (simp add: same_shape_input_def)
  have "(case reference of None \<Rightarrow> Inr img | Some d \<Rightarrow> ccd_subtract img d) =
          Inr (subtract_reference reference img)"
    using ref img
    by (auto simp: subtract_reference_def ccd_subtract_def np_binop_same_shape split: option.splits)
  then show ?case
    using img Cons.IH [OF rest] by (simp add: ccd_read_def)
qed

lemma Combiner_same_shape:
  assumes "stack \<noteq> []" and "\<forall>ccd\<in>set stack. shape ccd = (h, w)"
  shows "Combiner stack = Inr stack"
  using assms by (simp add: Combiner_def list_all_iff)

lemma combine_with_pixels:
  assumes "shape (hd stack) = (h, w)"
  shows "combine_with f stack = map (\<lambda>i. map (\<lambda>j. f (pixel_stack stack i j)) [0..<w]) [0..<h]"
  using assms by (simp add: combine_with_def)

lemma pixel_stack_samples:
  assumes "same_shape_input fs file_list reference h w" and "i < h" and "j < w"
  shows "pixel_stack (map (\<lambda>file. subtract_reference reference (the (fs file))) file_list) i j =
           spec_samples fs file_list reference i j"
proof -
  have ref: "case reference of None \<Rightarrow> True | Some d \<Rightarrow> rectangular d \<and> shape d = (h, w)"
    using assms(1) by (simp add: same_shape_input_def)
  have "subtract_reference reference (the (fs p)) ! i ! j =
          the (fs p) ! i ! j - reference_sample reference i j" if "p \<in> set file_list" for p
  proof -
    from that assms(1) obtain img where "fs p = Some img" "rectangular img" "shape img = (h, w)"
      by (auto simp: same_shape_input_def list_all_iff split: option.splits)
    then show ?thesis
      using subtract_reference_pixel [OF _ _ ref assms(2,3)] by simp
  qed
  then show ?thesis
    by (simp add: pixel_stack_def spec_samples_def)
qed

lemma combine_with_spec:
  assumes "same_shape_input fs file_list reference h w" and "file_list \<noteq> []"
  shows "combine_with f (map (\<lambda>file. subtract_reference reference (the (fs file))) file_list) =
           spec_combine f fs file_list reference h w"
proof -
  let ?stack = "map (\<lambda>file. subtract_reference reference (the (fs file))) file_list"
  have ref: "case reference of None \<Rightarrow> True | Some d \<Rightarrow> rectangular d \<and> shape d = (h, w)"
    using assms(1) by (simp add: same_shape_input_def)
  obtain img where "fs (hd file_list) = Some img" "rectangular img" "shape img = (h, w)"
    using assms by (cases file_list) (auto simp: same_shape_input_def split: option.splits)
  then have "shape (hd ?stack) = (h, w)"
    using assms(2) subtract_reference_shape(1) [OF _ _ ref] by (simp add: hd_map)
  then have "combine_with f ?stack =
      map (\<lambda>i. map (\<lambda>j. f (pixel_stack ?stack i j)) [0..<w]) [0..<h]"
    by (rule combine_with_pixels)
  also have "\<dots> = spec_combine f fs file_list reference h w"
    using pixel_stack_samples [OF assms(1)] by (simp add: spec_combine_def)
  finally show ?thesis .
qed

lemma load_and_combine_same_shape:
  assumes "same_shape_input fs file_list reference h w" and "file_list \<noteq> []"
  shows "load_and_combine fs file_list combine_method reference =
           (if combine_method = ''average''
              then Inr (spec_combine mean fs file_list reference h w)
            else if combine_method = ''median''
              then Inr (spec_combine median fs file_list reference h w)
            else Inl UnboundLocalError)"
proof -
  let ?stack = "map (\<lambda>file. subtract_reference reference (the (fs file))) file_list"
  have ref: "case reference of None \<Rightarrow> True | Some d \<Rightarrow> rectangular d \<and> shape d = (h, w)"
    using assms(1) by (simp add: same_shape_input_def)
  have "shape ccd = (h, w)" if "ccd \<in> set ?stack" for ccd
  proof -
    from that obtain p where p: "p \<in> set file_list"
        and ccd: "ccd = subtract_reference reference (the (fs p))"
      by auto
    from p assms(1) obtain img where "fs p = Some img" "rectangular img" "shape img = (h, w)"
      by (auto simp: same_shape_input_def list_all_iff split: option.splits)
    then show ?thesis
      using ccd subtract_reference_shape(1) [OF _ _ ref] by simp
  qed
  then have "Combiner ?stack = Inr ?stack"
    using assms(2) by (intro Combiner_same_shape) auto
  then show ?thesis
    using load_frames_same_shape [OF assms(1)] combine_with_spec [OF assms]
    by (simp add: load_and_combine_def average_combine_def median_combine_def)
qed

lemma median_sorted_lower:
  assumes "sorted s" and "s \<noteq> []" and "x \<in> set (take ((length s + 1) div 2) s)"
  shows "x \<le> median_sorted s"
proof -
  let ?n = "length s"
  from assms(3) obtain i where i: "i < (?n + 1) div 2" "i < ?n" and x: "x = s ! i"
    by (auto simp: in_set_conv_nth)
  show ?thesis
  proof (cases "?n mod 2 = 1")
    case True
    then have "i \<le> ?n div 2" using i by presburger
    moreover have "?n div 2 < ?n" using assms(2) by simp
    ultimately have "s ! i \<le> s ! (?n div 2)"
      using assms(1) by (simp add: sorted_nth_mono)
    with True x show ?thesis by (simp add: median_sorted_def)
  next
    case False
    then have even: "?n mod 2 = 0" by presburger
    have pos: "0 < ?n" using assms(2) by simp
    have k: "?n div 2 - 1 < ?n" "?n div 2 < ?n" "?n div 2 - 1 \<le> ?n div 2"
      using pos by arith+
    have "i \<le> ?n div 2 - 1" using i even pos by presburger
    then have a: "s ! i \<le> s ! (?n div 2 - 1)"
      using assms(1) k by (simp add: sorted_nth_mono)
    have b: "s ! (?n div 2 - 1) \<le> s ! (?n div 2)"
      using assms(1) k by (simp add: sorted_nth_mono)
    from a b have "s ! i \<le> (s ! (?n div 2 - 1) + s ! (?n div 2)) / 2" by simp
    with False x show ?thesis by (simp add: median_sorted_def Let_def)
  qed
qed

lemma median_sorted_upper:
  assumes "sorted s" and "s \<noteq> []" and "x \<in> set (drop (length s div 2) s)"
  shows "median_sorted s \<le> x"
proof -
  let ?n = "length s"
  from assms(3) obtain k where "k < ?n - ?n div 2" and "x = s ! (?n div 2 + k)"
    by (auto simp: in_set_conv_nth)
  then have "?n div 2 \<le> ?n div 2 + k \<and> ?n div 2 + k < ?n \<and> x = s ! (?n div 2 + k)"
    by simp
  then obtain i where i: "?n div 2 \<le> i" "i < ?n" and x: "x = s ! i"
    by blast
  show ?thesis
  proof (cases "?n mod 2 = 1")
    case True
    have "s ! (?n div 2) \<le> s ! i"
      using assms(1) i by (simp add: sorted_nth_mono)
    with True x show ?thesis by (simp add: median_sorted_def)
  next
    case False
    have pos: "0 < ?n" using assms(2) by simp
    have a: "s ! (?n div 2) \<le> s ! i"
      using assms(1) i by (simp add: sorted_nth_mono)
    have "?n div 2 - 1 \<le> ?n div 2" "?n div 2 < ?n"
      using pos by arith+
    then have b: "s ! (?n div 2 - 1) \<le> s ! (?n div 2)"
      using assms(1) by (simp add: sorted_nth_mono)
    from a b have "(s ! (?n div 2 - 1) + s ! (?n div 2)) / 2 \<le> s ! i" by simp
    with False x show ?thesis by (simp add: median_sorted_def Let_def)
  qed
qed

lemma filter_all_length:
  assumes "\<forall>x\<in>set ys. P x"
  shows "length (filter P ys) = length ys"
  using assms by (induction ys) auto

lemma length_filter_sort: "length (filter P (sort xs)) = length (filter P (xs :: real list))"
proof -
  have "mset (filter P (sort xs)) = mset (filter P xs)"
    by simp
  then show ?thesis
    by (metis size_mset)
qed

lemma median_splits_samples:
  assumes "xs \<noteq> []"
  shows "length xs \<le> 2 * length (filter (\<lambda>x. x \<le> median xs) xs)"
    and "length xs \<le> 2 * length (filter (\<lambda>x. median xs \<le> x) xs)"
proof -
  let ?s = "sort xs"
  let ?m = "median xs"
  let ?n = "length xs"
  have "length ?s \<noteq> 0"
    using assms by simp
  then have s: "sorted ?s" "?s \<noteq> []" "length ?s = ?n"
    by (simp_all del: length_sort, simp)
  have m: "?m = median_sorted ?s" by (simp add: median_def)
  have "length (filter (\<lambda>x. x \<le> ?m) (take ((?n + 1) div 2) ?s)) = length (take ((?n + 1) div 2) ?s)"
    using median_sorted_lower [OF s(1,2)] s(3) m by (intro filter_all_length) simp
  moreover have "length (filter (\<lambda>x. x \<le> ?m) ?s) =
      length (filter (\<lambda>x. x \<le> ?m) (take ((?n + 1) div 2) ?s)) +
      length (filter (\<lambda>x. x \<le> ?m) (drop ((?n + 1) div 2) ?s))"
    by (metis append_take_drop_id filter_append length_append)
  ultimately have "(?n + 1) div 2 \<le> length (filter (\<lambda>x. x \<le> ?m) ?s)"
    using s(3) by simp
  then show "?n \<le> 2 * length (filter (\<lambda>x. x \<le> ?m) xs)"
    by (simp add: length_filter_sort)
  have "length (filter (\<lambda>x. ?m \<le> x) (drop (?n div 2) ?s)) = length (drop (?n div 2) ?s)"
    using median_sorted_upper [OF s(1,2)] s(3) m by (intro filter_all_length) simp
  moreover have "length (filter (\<lambda>x. ?m \<le> x) ?s) =
      length (filter (\<lambda>x. ?m \<le> x) (take (?n div 2) ?s)) +
      length (filter (\<lambda>x. ?m \<le> x) (drop (?n div 2) ?s))"
    by (metis append_take_drop_id filter_append length_append)
  ultimately have "?n - ?n div 2 \<le> length (filter (\<lambda>x. ?m \<le> x) ?s)"
    using s(3) by (simp del: length_filter_conv_card) arith
  then show "?n \<le> 2 * length (filter (\<lambda>x. ?m \<le> x) xs)"
    by (simp add: length_filter_sort)
qed

lemma spec_combine_pixel:
  assumes "i < h" and "j < w"
  shows "spec_combine f fs file_list reference h w ! i ! j =
           f (spec_samples fs file_list reference i j)"
  using assms by (simp add: spec_combine_def)

text \<open>
  Claim C2. For a non-empty list of files holding images of one shape (and a reference of
  that shape, when one is given), \<^verbatim>\<open>'average'\<close> returns at every pixel the sum of the
  samples, each less the reference sample, divided by the number of files, and
  \<^verbatim>\<open>'median'\<close> returns the middle of the sorted samples, a value with at least
  half of the samples on either side.
\<close>

theorem load_and_combine_mean_median:
  assumes "same_shape_input fs file_list reference h w" and "file_list \<noteq> []"
  shows "load_and_combine fs file_list ''average'' reference =
           Inr (spec_combine mean fs file_list reference h w) \<and>
         load_and_combine fs file_list ''median'' reference =
           Inr (spec_combine median fs file_list reference h w) \<and>
         (\<forall>i<h. \<forall>j<w.
            spec_combine mean fs file_list reference h w ! i ! j =
              (\<Sum>file\<leftarrow>file_list. the (fs file) ! i ! j - reference_sample reference i j)
                / real (length file_list) \<and>
            spec_combine median fs file_list reference h w ! i ! j =
              median_sorted (sort (spec_samples fs file_list reference i j)) \<and>
            length file_list \<le> 2 * length (filter
              (\<lambda>x. x \<le> spec_combine median fs file_list reference h w ! i ! j)
              (spec_samples fs file_list reference i j)) \<and>
            length file_list \<le> 2 * length (filter
              (\<lambda>x. spec_combine median fs file_list reference h w ! i ! j \<le> x)
              (spec_samples fs file_list reference i j)))"
proof (intro conjI allI impI)
  show "load_and_combine fs file_list ''average'' reference =
      Inr (spec_combine mean fs file_list reference h w)"
    using load_and_combine_same_shape [OF assms] by simp
  show "load_and_combine fs file_list ''median'' reference =
      Inr (spec_combine median fs file_list reference h w)"
    using load_and_combine_same_shape [OF assms] by simp
next
  fix i j
  assume ij: "i < h" "j < w"
  let ?xs = "spec_samples fs file_list reference i j"
  have xs: "?xs \<noteq> []" "length ?xs = length file_list"
    using assms(2) by (simp_all add: spec_samples_def)
  show "spec_combine mean fs file_list reference h w ! i ! j =
      (\<Sum>file\<leftarrow>file_list. the (fs file) ! i ! j - reference_sample reference i j)
        / real (length file_list)"
    using ij by (simp add: spec_combine_pixel mean_def spec_samples_def)
  show "spec_combine median fs file_list reference h w ! i ! j = median_sorted (sort ?xs)"
    using ij by (simp add: spec_combine_pixel median_def)
  show "length file_list \<le> 2 * length (filter
      (\<lambda>x. x \<le> spec_combine median fs file_list reference h w ! i ! j) ?xs)"
    using median_splits_samples(1) [OF xs(1)] xs(2) ij by (simp add: spec_combine_pixel)
  show "length file_list \<le> 2 * length (filter
      (\<lambda>x. spec_combine median fs file_list reference h w ! i ! j \<le> x) ?xs)"
    using median_splits_samples(2) [OF xs(1)] xs(2) ij by (simp add: spec_combine_pixel)
qed

text \<open>
  The scenario of the specification: the flats 100, 100, 100 and 102, 98, 100 combine to
  101, 99, 100 under both methods.
\<close>

theorem load_and_combine_mean_median_witness:
  "same_shape_input two_flats [''f1'', ''f2''] None 1 3 \<and>
   load_and_combine two_flats [''f1'', ''f2''] ''average'' None =
     Inr [[101, 99, 100]] \<and>
   load_and_combine two_flats [''f1'', ''f2''] ''median'' None =
     Inr [[101, 99, 100]]"
proof -
  have h: "same_shape_input two_flats [''f1'', ''f2''] None 1 3"
    by (simp add: same_shape_input_def two_flats_def rectangular_def shape_def)
  have u: "[0..<3] = [0, 1, 2]" "[0..<1] = [0]"
    by (simp_all add: upt_rec)
  have "spec_combine mean two_flats [''f1'', ''f2''] None 1 3 = [[101, 99, 100]]"
    by (simp add: spec_combine_def spec_samples_def reference_sample_def two_flats_def mean_def u)
  moreover have "spec_combine median two_flats [''f1'', ''f2''] None 1 3 =
      [[101, 99, 100]]"
    by (simp add: spec_combine_def spec_samples_def reference_sample_def two_flats_def median_def
        median_sorted_def u)
  moreover have ne: "[''f1'', ''f2''] \<noteq> []"
    by simp
  moreover note load_and_combine_mean_median [OF h ne, THEN conjunct1]
    load_and_combine_mean_median [OF h ne, THEN conjunct2, THEN conjunct1]
  ultimately show ?thesis
    using h by simp
qed

lemma median_perm:
  assumes "mset ys = mset xs"
  shows "median ys = median xs"
proof -
  have "sort xs = sort ys"
    using assms by (intro properties_for_sort) simp_all
  then show ?thesis
    by (simp add: median_def)
qed

lemma spec_samples_perm:
  assumes "mset file_list' = mset file_list"
  shows "mset (spec_samples fs file_list' reference i j) =
         mset (spec_samples fs file_list reference i j)"
  using assms by (simp add: spec_samples_def)

lemma same_shape_input_perm:
  assumes "mset file_list' = mset file_list" and "same_shape_input fs file_list reference h w"
  shows "same_shape_input fs file_list' reference h w"
  using assms mset_eq_setD [OF assms(1)] by (simp add: same_shape_input_def list_all_iff)

lemma pow2_powr: "pow2 e = 2 powr of_int e"
  by (simp add: pow2_def powr_int)

lemma binary64_eval:
  assumes "pow2 e \<le> \<bar>x\<bar>" and "\<bar>x\<bar> < pow2 (e + 1)"
  shows "binary64 x = of_int (round_even (x / pow2 (e - 52))) * pow2 (e - 52)"
proof -
  have "0 < pow2 e"
    by (simp add: pow2_powr)
  with assms(1) have pos: "0 < \<bar>x\<bar>"
    by simp
  have "\<lfloor>log 2 \<bar>x\<bar>\<rfloor> = e"
    using assms pos by (subst floor_log_eq_powr_iff) (auto simp: pow2_powr)
  then show ?thesis
    using pos by (simp add: binary64_def Let_def)
qed

lemma round_even_int: "round_even (of_int m) = m"
  by (simp add: round_even_def)

lemma binary64_int:
  assumes "\<bar>k\<bar> < 2 ^ 53"
  shows "binary64 (of_int k) = of_int k"
proof (cases "k = 0")
  case True
  then show ?thesis by (simp add: binary64_def)
next
  case False
  define e where "e = \<lfloor>log 2 \<bar>of_int k :: real\<bar>\<rfloor> - 52"
  have "\<bar>of_int k :: real\<bar> < 2 ^ 53"
    using assms by (metis of_int_abs of_int_less_numeral_power_cancel_iff)
  then have "log 2 \<bar>of_int k :: real\<bar> < 53"
    using False by (subst log_less_iff) simp_all
  then have "\<lfloor>log 2 \<bar>of_int k :: real\<bar>\<rfloor> < 53"
    by (simp add: floor_less_iff)
  then have e: "e \<le> 0"
    unfolding e_def by simp
  have p: "pow2 e = 1 / 2 ^ nat (- e)"
  proof (cases "e = 0")
    case True
    then show ?thesis by (simp add: pow2_def)
  next
    case False
    with e show ?thesis by (simp add: pow2_def)
  qed
  have "of_int k / pow2 e = (of_int (k * 2 ^ nat (- e)) :: real)"
    using p by simp
  then have "round_even (of_int k / pow2 e) = k * 2 ^ nat (- e)"
    by (simp only: round_even_int)
  then show ?thesis
    using False p by (simp add: binary64_def Let_def e_def [symmetric])
qed

lemma binary64_numeral:
  assumes "(numeral n :: int) < 2 ^ 53"
  shows "binary64 (numeral n) = numeral n"
  using binary64_int [of "numeral n"] assms by simp

lemma binary64_one: "binary64 1 = 1"
  using binary64_int [of 1] by simp

lemma mean64_perm:
  assumes "mset ys = mset xs" and "sum64 xs = sum_list xs" and "sum64 ys = sum_list ys"
  shows "mean64 ys = mean64 xs"
proof -
  have "sum_mset (mset ys) = sum_mset (mset xs)"
    using assms(1) by simp
  then have "sum_list ys = sum_list xs"
    by (simp only: sum_mset_sum_list)
  moreover have "length ys = length xs"
    using assms(1) by (rule mset_eq_length)
  ultimately show ?thesis
    using assms(2,3) by (simp add: mean64_def)
qed

lemma exact_sums_pixels:
  assumes "shape (hd stack) = (h, w)" and "exact_sums stack" and "i < h" and "j < w"
  shows "sum64 (pixel_stack stack i j) = sum_list (pixel_stack stack i j)"
  using assms by (simp add: exact_sums_def list_all_iff)

lemma frames_shape:
  assumes "same_shape_input fs file_list reference h w" and "file_list \<noteq> []"
  shows "shape (hd (map (\<lambda>file. subtract_reference reference (the (fs file))) file_list)) = (h, w)"
proof -
  have ref: "case reference of None \<Rightarrow> True | Some d \<Rightarrow> rectangular d \<and> shape d = (h, w)"
    using assms(1) by (simp add: same_shape_input_def)
  obtain img where "fs (hd file_list) = Some img" "rectangular img" "shape img = (h, w)"
    using assms by (cases file_list) (auto simp: same_shape_input_def split: option.splits)
  then show ?thesis
    using assms(2) subtract_reference_shape(1) [OF _ _ ref] by (simp add: hd_map)
qed

lemma average_combine64_perm:
  assumes "same_shape_input fs file_list reference h w" and "file_list \<noteq> []"
    and "mset file_list' = mset file_list"
    and "load_frames fs file_list reference = Inr stack"
    and "load_frames fs file_list' reference = Inr stack'"
    and "exact_sums stack" and "exact_sums stack'"
  shows "average_combine64 stack' = average_combine64 stack"
proof -
  have s': "same_shape_input fs file_list' reference h w"
    using assms(3,1) by (rule same_shape_input_perm)
  have ne': "file_list' \<noteq> []"
    using assms(2,3) by auto
  have stack: "stack = map (\<lambda>file. subtract_reference reference (the (fs file))) file_list"
    using load_frames_same_shape [OF assms(1)] assms(4) by simp
  have stack': "stack' = map (\<lambda>file. subtract_reference reference (the (fs file))) file_list'"
    using load_frames_same_shape [OF s'] assms(5) by simp
  have sh: "shape (hd stack) = (h, w)" "shape (hd stack') = (h, w)"
    using frames_shape [OF assms(1,2)] frames_shape [OF s' ne'] stack stack' by simp_all
  have eq: "mean64 (spec_samples fs file_list' reference i j) =
      mean64 (spec_samples fs file_list reference i j)" if "i < h" and "j < w" for i j
  proof -
    have "sum64 (pixel_stack stack i j) = sum_list (pixel_stack stack i j)"
      "sum64 (pixel_stack stack' i j) = sum_list (pixel_stack stack' i j)"
      using exact_sums_pixels [OF sh(1) assms(6) that] exact_sums_pixels [OF sh(2) assms(7) that]
      by simp_all
    then have "sum64 (spec_samples fs file_list reference i j) =
        sum_list (spec_samples fs file_list reference i j)"
      "sum64 (spec_samples fs file_list' reference i j) =
        sum_list (spec_samples fs file_list' reference i j)"
      using pixel_stack_samples [OF assms(1) that] pixel_stack_samples [OF s' that] stack stack'
      by simp_all
    with spec_samples_perm [OF assms(3)] show ?thesis
      by (intro mean64_perm)
  qed
  have "average_combine64 stack' = spec_combine mean64 fs file_list' reference h w"
    using combine_with_spec [OF s' ne'] stack' by (simp add: average_combine64_def)
  also have "\<dots> = spec_combine mean64 fs file_list reference h w"
    using eq by (simp add: spec_combine_def)
  also have "\<dots> = average_combine64 stack"
    using combine_with_spec [OF assms(1,2)] stack by (simp add: average_combine64_def)
  finally show ?thesis .
qed

lemma median_combine_perm:
  assumes "same_shape_input fs file_list reference h w" and "file_list \<noteq> []"
    and "mset file_list' = mset file_list"
  shows "load_and_combine fs file_list' ''median'' reference =
           load_and_combine fs file_list ''median'' reference"
    and "\<exists>master. load_and_combine fs file_list ''median'' reference = Inr master"
proof -
  have s': "same_shape_input fs file_list' reference h w"
    using assms(3,1) by (rule same_shape_input_perm)
  have ne': "file_list' \<noteq> []"
    using assms(2,3) by auto
  have "spec_combine median fs file_list' reference h w =
      spec_combine median fs file_list reference h w"
    by (simp add: spec_combine_def median_perm [OF spec_samples_perm [OF assms(3)]])
  then show "load_and_combine fs file_list' ''median'' reference =
      load_and_combine fs file_list ''median'' reference"
    using load_and_combine_same_shape [OF assms(1,2)] load_and_combine_same_shape [OF s' ne']
    by simp
  show "\<exists>master. load_and_combine fs file_list ''median'' reference = Inr master"
    using load_and_combine_same_shape [OF assms(1,2)] by simp
qed

text \<open>
  Claim C9, as the code behaves. For a non-empty list of files holding images of one
  shape and every permutation of the list: under \<^verbatim>\<open>'median'\<close> the same master frame is
  returned; both orders load a stack of frames, and under \<^verbatim>\<open>'average'\<close>, computed in
  binary64, the two stacks give the same master frame when the running sum at every
  pixel is exact in both orders.
\<close>

theorem load_and_combine_permutation:
  assumes "same_shape_input fs file_list reference h w" and "file_list \<noteq> []"
    and "mset file_list' = mset file_list"
  shows "load_and_combine fs file_list' ''median'' reference =
           load_and_combine fs file_list ''median'' reference \<and>
         (\<exists>master. load_and_combine fs file_list ''median'' reference = Inr master) \<and>
         (\<exists>stack stack'. load_frames fs file_list reference = Inr stack \<and>
            load_frames fs file_list' reference = Inr stack' \<and>
            (exact_sums stack \<and> exact_sums stack' \<longrightarrow>
               average_combine64 stack' = average_combine64 stack))"
proof -
  have s': "same_shape_input fs file_list' reference h w"
    using assms(3,1) by (rule same_shape_input_perm)
  obtain stack stack' where frames: "load_frames fs file_list reference = Inr stack"
      "load_frames fs file_list' reference = Inr stack'"
    using load_frames_same_shape [OF assms(1)] load_frames_same_shape [OF s'] by blast
  have "exact_sums stack \<and> exact_sums stack' \<longrightarrow>
      average_combine64 stack' = average_combine64 stack"
    using average_combine64_perm [OF assms frames] by blast
  with frames median_combine_perm [OF assms] show ?thesis
    by blast
qed

theorem load_and_combine_permutation_witness:
  "same_shape_input three_frames [''a'', ''b'', ''c''] None 1 2 \<and>
   mset [''c'', ''a'', ''b''] = mset [''a'', ''b'', ''c''] \<and>
   load_and_combine three_frames [''c'', ''a'', ''b''] ''median'' None =
     load_and_combine three_frames [''a'', ''b'', ''c''] ''median'' None \<and>
   load_frames three_frames [''a'', ''b'', ''c''] None = Inr [[[1, 9]], [[5, 2]], [[3, 4]]] \<and>
   load_frames three_frames [''c'', ''a'', ''b''] None = Inr [[[3, 4]], [[1, 9]], [[5, 2]]] \<and>
   exact_sums [[[1, 9]], [[5, 2]], [[3, 4]]] \<and>
   exact_sums [[[3, 4]], [[1, 9]], [[5, 2]]] \<and>
   average_combine64 [[[3, 4]], [[1, 9]], [[5, 2]]] =
     average_combine64 [[[1, 9]], [[5, 2]], [[3, 4]]]"
proof -
  have h: "same_shape_input three_frames [''a'', ''b'', ''c''] None 1 2"
    by (simp add: same_shape_input_def three_frames_def rectangular_def shape_def)
  have p: "mset [''c'', ''a'', ''b''] = mset [''a'', ''b'', ''c'']"
    by simp
  have ne: "[''a'', ''b'', ''c''] \<noteq> []"
    by simp
  have f: "load_frames three_frames [''a'', ''b'', ''c''] None = Inr [[[1, 9]], [[5, 2]], [[3, 4]]]"
    "load_frames three_frames [''c'', ''a'', ''b''] None = Inr [[[3, 4]], [[1, 9]], [[5, 2]]]"
    by (simp_all add: three_frames_def ccd_read_def)
  have e: "exact_sums [[[1, 9]], [[5, 2]], [[3, 4]]]" "exact_sums [[[3, 4]], [[1, 9]], [[5, 2]]]"
    by (simp_all add: exact_sums_def shape_def pixel_stack_def sum64_def upt_conv_Cons
        binary64_numeral binary64_one)
  note t = load_and_combine_permutation [OF h ne p]
  from t have "load_and_combine three_frames [''c'', ''a'', ''b''] ''median'' None =
      load_and_combine three_frames [''a'', ''b'', ''c''] ''median'' None"
    by (rule conjunct1)
  moreover from t f e have "average_combine64 [[[3, 4]], [[1, 9]], [[5, 2]]] =
      average_combine64 [[[1, 9]], [[5, 2]], [[3, 4]]]"
    by auto
  ultimately show ?thesis
    using h p f e by blast
qed

text \<open>
  Claim C9 as stated fails for \<^verbatim>\<open>'average'\<close>: three frames of one pixel holding the
  binary64 numbers nearest to 0.1, 0.2 and 0.3 average to 0.20000000000000004 in the
  order given and to 0.19999999999999998 in the reverse order.
\<close>

theorem average_order_counterexample:
  "mset [''c'', ''b'', ''a''] = mset [''a'', ''b'', ''c''] \<and>
   load_frames tenths [''a'', ''b'', ''c''] None =
     Inr [[[3602879701896397 / 36028797018963968]], [[3602879701896397 / 18014398509481984]],
          [[5404319552844595 / 18014398509481984]]] \<and>
   load_frames tenths [''c'', ''b'', ''a''] None =
     Inr [[[5404319552844595 / 18014398509481984]], [[3602879701896397 / 18014398509481984]],
          [[3602879701896397 / 36028797018963968]]] \<and>
   average_combine64
     [[[3602879701896397 / 36028797018963968]], [[3602879701896397 / 18014398509481984]],
      [[5404319552844595 / 18014398509481984]]] = [[7205759403792795 / 36028797018963968]] \<and>
   average_combine64
     [[[5404319552844595 / 18014398509481984]], [[3602879701896397 / 18014398509481984]],
      [[3602879701896397 / 36028797018963968]]] = [[7205759403792793 / 36028797018963968]]"
proof -
  let ?a = "3602879701896397 / 36028797018963968 :: real"
  let ?b = "3602879701896397 / 18014398509481984 :: real"
  let ?c = "5404319552844595 / 18014398509481984 :: real"
  have a: "binary64 ?a = ?a"
    by (subst binary64_eval [of "- 4"]) (simp_all add: round_even_def Let_def pow2_def)
  have ab: "binary64 (?a + ?b) = 1351079888211149 / 4503599627370496"
    by (subst binary64_eval [of "- 2"]) (simp_all add: round_even_def Let_def pow2_def)
  have abc: "binary64 (1351079888211149 / 4503599627370496 + ?c) =
      1351079888211149 / 2251799813685248"
    by (subst binary64_eval [of "- 1"]) (simp_all add: round_even_def Let_def pow2_def)
  have m1: "binary64 (1351079888211149 / 2251799813685248 / 3) =
      7205759403792795 / 36028797018963968"
    by (subst binary64_eval [of "- 3"]) (simp_all add: round_even_def Let_def pow2_def)
  have c: "binary64 ?c = ?c"
    by (subst binary64_eval [of "- 2"]) (simp_all add: round_even_def Let_def pow2_def)
  have cb: "binary64 (?c + ?b) = 1 / 2"
    by (subst binary64_eval [of "- 1"]) (simp_all add: round_even_def Let_def pow2_def)
  have cba: "binary64 (1 / 2 + ?a) = 5404319552844595 / 9007199254740992"
    by (subst binary64_eval [of "- 1"]) (simp_all add: round_even_def Let_def pow2_def)
  have m2: "binary64 (5404319552844595 / 9007199254740992 / 3) =
      7205759403792793 / 36028797018963968"
    by (subst binary64_eval [of "- 3"]) (simp_all add: round_even_def Let_def pow2_def)
  have s1: "sum64 [?a, ?b, ?c] = 1351079888211149 / 2251799813685248"
    by (simp only: sum64_def foldl.simps add_0 a ab abc)
  have s2: "sum64 [?c, ?b, ?a] = 5404319552844595 / 9007199254740992"
    by (simp only: sum64_def foldl.simps add_0 c cb cba)
  have "mean64 [?a, ?b, ?c] = 7205759403792795 / 36028797018963968"
    unfolding mean64_def s1 using m1 by simp
  moreover have "mean64 [?c, ?b, ?a] = 7205759403792793 / 36028797018963968"
    unfolding mean64_def s2 using m2 by simp
  moreover have "load_frames tenths [''a'', ''b'', ''c''] None = Inr [[[?a]], [[?b]], [[?c]]]"
    "load_frames tenths [''c'', ''b'', ''a''] None = Inr [[[?c]], [[?b]], [[?a]]]"
    by (simp_all add: tenths_def ccd_read_def)
  ultimately show ?thesis
    by (simp add: average_combine64_def combine_with_def shape_def pixel_stack_def)
qed

section \<open>Properties of broadcasting\<close>

lemma length_stretch: "length (stretch n xs) = n"
  by (simp add: stretch_def)

lemma set_stretch: "xs \<noteq> [] \<Longrightarrow> set (stretch n xs) \<subseteq> set xs"
  by (auto simp: stretch_def)

lemma broadcast_to_rows:
  assumes "a = [] \<longrightarrow> h = 0"
  shows "length (broadcast_to h w a) = h"
    and "r \<in> set (broadcast_to h w a) \<Longrightarrow> length r = w"
proof -
  show "length (broadcast_to h w a) = h"
    by (simp add: broadcast_to_def length_stretch)
  assume r: "r \<in> set (broadcast_to h w a)"
  show "length r = w"
  proof (cases "a = []")
    case True
    with assms r show ?thesis
      by (simp add: broadcast_to_def stretch_def)
  next
    case False
    then have "set (broadcast_to h w a) \<subseteq> set (map (stretch w) a)"
      unfolding broadcast_to_def by (intro set_stretch) simp
    with r obtain x where "r = stretch w x"
      by auto
    then show ?thesis
      by (simp add: length_stretch)
  qed
qed

lemma broadcast_dim_zero:
  assumes "broadcast_dim m n = Some k" and "m = 0 \<or> n = 0"
  shows "k = 0"
  using assms by (auto simp: broadcast_dim_def split: if_splits)

lemma broadcast_dim_zero_result:
  assumes "broadcast_dim m n = Some 0"
  shows "m = 0 \<or> n = 0"
  using assms by (auto simp: broadcast_dim_def split: if_splits)

lemma broadcast_shapes_dims:
  assumes "broadcast_shapes (shape a) (shape b) = Some (h, w)"
  shows "broadcast_dim (length a) (length b) = Some h"
    and "broadcast_dim (snd (shape a)) (snd (shape b)) = Some w"
  using assms by (auto simp: broadcast_shapes_def shape_def split: option.splits)

lemma np_binop_shape:
  assumes "broadcast_shapes (shape a) (shape b) = Some (h, w)"
  shows "\<exists>c. np_binop f a b = Inr c \<and> shape c = (h, w) \<and> rectangular c"
proof -
  let ?A = "broadcast_to h w a" and ?B = "broadcast_to h w b"
  let ?c = "map2 (map2 f) ?A ?B"
  note dims = broadcast_shapes_dims [OF assms]
  have a0: "a = [] \<longrightarrow> h = 0" and b0: "b = [] \<longrightarrow> h = 0"
    using broadcast_dim_zero [OF dims(1)] by auto
  have len: "length ?A = h" "length ?B = h"
    using broadcast_to_rows(1) [OF a0] broadcast_to_rows(1) [OF b0] by auto
  have rows: "length r = w" if "r \<in> set ?c" for r
  proof -
    from that obtain x y where "(x, y) \<in> set (zip ?A ?B)" and r: "r = map2 f x y"
      by auto
    then have "x \<in> set ?A" and "y \<in> set ?B"
      by (auto dest: set_zip_leftD set_zip_rightD)
    then have "length x = w" and "length y = w"
      using broadcast_to_rows(2) [OF a0] broadcast_to_rows(2) [OF b0] by auto
    with r show ?thesis by simp
  qed
  have lc: "length ?c = h"
    using len by simp
  have w0: "w = 0" if "h = 0"
  proof -
    from that dims(1) have "broadcast_dim (length a) (length b) = Some 0"
      by simp
    then have "length a = 0 \<or> length b = 0"
      by (rule broadcast_dim_zero_result)
    then have "snd (shape a) = 0 \<or> snd (shape b) = 0"
      by (auto simp: shape_def)
    then show ?thesis
      using broadcast_dim_zero [OF dims(2)] by simp
  qed
  have sh: "shape ?c = (h, w)"
  proof (cases "h = 0")
    case True
    with lc have "length ?c = 0" by (simp only:)
    then have "?c = []" by (simp only: length_0_conv)
    then show ?thesis using True w0 by (simp only: shape_def) simp
  next
    case False
    then have "?c \<noteq> []" using lc by auto
    then have "hd ?c \<in> set ?c" by (rule hd_in_set)
    then have "length (hd ?c) = w" by (rule rows)
    then show ?thesis
      using lc \<open>?c \<noteq> []\<close> by (simp add: shape_def del: length_map)
  qed
  have "rectangular ?c"
    using rows sh by (simp add: rectangular_def list_all_iff del: set_map)
  moreover have "np_binop f a b = Inr ?c"
    using assms by (simp add: np_binop_def)
  ultimately show ?thesis
    using sh by blast
qed

lemma np_binop_fails:
  assumes "broadcast_shapes (shape a) (shape b) = None"
  shows "np_binop f a b = Inl ValueError"
  using assms by (simp add: np_binop_def)

lemma corrected_image_broadcast:
  "case broadcast3 (shape raw) (shape dark) (shape flat) of
     None \<Rightarrow> corrected_image raw dark flat = Inl ValueError
   | Some s \<Rightarrow> (\<exists>c. corrected_image raw dark flat = Inr c \<and> shape c = s)"
proof (cases "broadcast_shapes (shape raw) (shape dark)")
  case None
  then show ?thesis
    by (simp add: broadcast3_def corrected_image_def np_binop_fails)
next
  case (Some s)
  obtain h w where s: "s = (h, w)" by (cases s)
  from np_binop_shape [of raw dark h w "\<lambda>x y. x - y"] Some s
  obtain tmd where tmd: "np_binop (\<lambda>x y. x - y) raw dark = Inr tmd" "shape tmd = s"
    by auto
  have nf: "shape (combined_flat_normalized flat) = shape flat"
    by (simp add: combined_flat_normalized_def shape_map_map)
  show ?thesis
  proof (cases "broadcast_shapes s (shape flat)")
    case None
    then show ?thesis
      using Some tmd nf by (simp add: broadcast3_def corrected_image_def np_binop_fails)
  next
    case (Some t)
    obtain h' w' where t: "t = (h', w')" by (cases t)
    from np_binop_shape [of tmd "combined_flat_normalized flat" h' w' "\<lambda>x y. fdiv (Fin x) y"]
      Some t tmd nf
    obtain c where "np_binop (\<lambda>x y. fdiv (Fin x) y) tmd (combined_flat_normalized flat) = Inr c"
      "shape c = t"
      by auto
    then show ?thesis
      using Some \<open>broadcast_shapes (shape raw) (shape dark) = Some s\<close> tmd
      by (simp add: broadcast3_def corrected_image_def)
  qed
qed

lemma frame_step:
  "case frame_shape reference img of
     None \<Rightarrow> (case reference of None \<Rightarrow> Inr img | Some d \<Rightarrow> ccd_subtract img d) = Inl ValueError
   | Some s \<Rightarrow> (\<exists>c. (case reference of None \<Rightarrow> Inr img | Some d \<Rightarrow> ccd_subtract img d) = Inr c \<and>
                 shape c = s)"
proof (cases reference)
  case None
  then show ?thesis
    by (simp add: frame_shape_def)
next
  case (Some d)
  show ?thesis
  proof (cases "broadcast_shapes (shape img) (shape d)")
    case None
    then show ?thesis
      using Some by (simp add: frame_shape_def ccd_subtract_def np_binop_fails)
  next
    case (Some s)
    obtain h w where s: "s = (h, w)" by (cases s)
    from np_binop_shape [of img d h w "\<lambda>x y. x - y"] Some s
    obtain c where "np_binop (\<lambda>x y. x - y) img d = Inr c" "shape c = s"
      by auto
    then show ?thesis
      using Some \<open>reference = Some d\<close> by (simp add: frame_shape_def ccd_subtract_def)
  qed
qed

lemma load_frames_fails:
  assumes "\<forall>path\<in>set file_list. fs path \<noteq> None"
    and "\<exists>path\<in>set file_list. frame_shape reference (the (fs path)) = None"
  shows "load_frames fs file_list reference = Inl ValueError"
  using assms
proof (induction file_list)
  case Nil
  then show ?case by simp
next
  case (Cons path files)
  from Cons.prems(1) obtain img where img: "fs path = Some img"
    by auto
  note step = frame_step [where reference = reference and img = img]
  show ?case
  proof (cases "frame_shape reference img")
    case None
    with step img show ?thesis
      by (simp add: ccd_read_def)
  next
    case (Some s)
    with step obtain c where
      c: "(case reference of None \<Rightarrow> Inr img | Some d \<Rightarrow> ccd_subtract img d) = Inr c"
      by auto
    from Some img Cons.prems(2)
    have "\<exists>path\<in>set files. frame_shape reference (the (fs path)) = None"
      by auto
    moreover from Cons.prems(1) have "\<forall>path\<in>set files. fs path \<noteq> None"
      by simp
    ultimately have "load_frames fs files reference = Inl ValueError"
      by (rule Cons.IH [rotated])
    with img c show ?thesis
      by (simp add: ccd_read_def)
  qed
qed

lemma load_frames_shapes:
  assumes "\<forall>path\<in>set file_list. fs path \<noteq> None"
    and "\<forall>path\<in>set file_list. frame_shape reference (the (fs path)) \<noteq> None"
  shows "\<exists>frames. load_frames fs file_list reference = Inr frames \<and>
           map (\<lambda>ccd. Some (shape ccd)) frames =
           map (\<lambda>path. frame_shape reference (the (fs path))) file_list"
  using assms
proof (induction file_list)
  case Nil
  then show ?case by simp
next
  case (Cons path files)
  from Cons.prems(1) obtain img where img: "fs path = Some img"
    by auto
  from Cons.prems(2) img obtain s where s: "frame_shape reference img = Some s"
    by auto
  with frame_step [where reference = reference and img = img] obtain c where
    c: "(case reference of None \<Rightarrow> Inr img | Some d \<Rightarrow> ccd_subtract img d) = Inr c" "shape c = s"
    by auto
  from Cons.prems have "\<forall>path\<in>set files. fs path \<noteq> None"
    and "\<forall>path\<in>set files. frame_shape reference (the (fs path)) \<noteq> None"
    by simp_all
  from Cons.IH [OF this] obtain frames where
    frames: "load_frames fs files reference = Inr frames"
      "map (\<lambda>ccd. Some (shape ccd)) frames =
       map (\<lambda>path. frame_shape reference (the (fs path))) files"
    by blast
  from img c frames(1) have "load_frames fs (path # files) reference = Inr (c # frames)"
    by (simp add: ccd_read_def)
  moreover have "map (\<lambda>ccd. Some (shape ccd)) (c # frames) =
      map (\<lambda>path. frame_shape reference (the (fs path))) (path # files)"
    using frames(2) c(2) s img by simp
  ultimately show ?case
    by blast
qed

lemma shape_combine_with:
  assumes "stack \<noteq> []"
  shows "shape (combine_with f stack) = shape (hd stack)"
proof -
  obtain h w where hw: "shape (hd stack) = (h, w)"
    by (cases "shape (hd stack)")
  have w0: "h = 0 \<longrightarrow> w = 0"
    using hw by (auto simp: shape_def)
  have "combine_with f stack = map (\<lambda>i. map (\<lambda>j. f (pixel_stack stack i j)) [0..<w]) [0..<h]"
    using hw by (simp add: combine_with_def)
  then have "shape (combine_with f stack) = (h, w)"
    using w0 by (cases "h = 0") (simp_all add: shape_def hd_map upt_conv_Cons)
  with hw show ?thesis
    by simp
qed

lemma load_and_combine_shapes:
  assumes "\<forall>path\<in>set file_list. fs path \<noteq> None"
  shows "(\<exists>path\<in>set file_list. frame_shape reference (the (fs path)) = None) \<longrightarrow>
           load_and_combine fs file_list combine_method reference = Inl ValueError"
    and "(\<forall>path\<in>set file_list. frame_shape reference (the (fs path)) \<noteq> None) \<and>
         (\<exists>path\<in>set file_list. frame_shape reference (the (fs path)) \<noteq>
                                frame_shape reference (the (fs (hd file_list)))) \<longrightarrow>
           load_and_combine fs file_list combine_method reference = Inl TypeError"
    and "file_list \<noteq> [] \<and>
         (\<forall>path\<in>set file_list. frame_shape reference (the (fs path)) = Some s) \<and>
         (combine_method = ''average'' \<or> combine_method = ''median'') \<longrightarrow>
           (\<exists>master. load_and_combine fs file_list combine_method reference = Inr master \<and>
                     shape master = s)"
proof -
  show "(\<exists>path\<in>set file_list. frame_shape reference (the (fs path)) = None) \<longrightarrow>
      load_and_combine fs file_list combine_method reference = Inl ValueError"
    using load_frames_fails [OF assms] by (simp add: load_and_combine_def)
next
  show "(\<forall>path\<in>set file_list. frame_shape reference (the (fs path)) \<noteq> None) \<and>
      (\<exists>path\<in>set file_list. frame_shape reference (the (fs path)) \<noteq>
                             frame_shape reference (the (fs (hd file_list)))) \<longrightarrow>
      load_and_combine fs file_list combine_method reference = Inl TypeError"
  proof (rule impI, elim conjE bexE)
    fix path
    assume ok: "\<forall>path\<in>set file_list. frame_shape reference (the (fs path)) \<noteq> None"
      and path: "path \<in> set file_list"
      and differ: "frame_shape reference (the (fs path)) \<noteq>
                   frame_shape reference (the (fs (hd file_list)))"
    from load_frames_shapes [OF assms ok] obtain frames where
      frames: "load_frames fs file_list reference = Inr frames"
        "map (\<lambda>ccd. Some (shape ccd)) frames =
         map (\<lambda>path. frame_shape reference (the (fs path))) file_list"
      by blast
    from path have ne: "file_list \<noteq> []"
      by auto
    from frames(2) have len: "length frames = length file_list"
      by (rule map_eq_imp_length_eq)
    with ne have fne: "frames \<noteq> []"
      by auto
    from path obtain n where n: "n < length file_list" "file_list ! n = path"
      by (auto simp: in_set_conv_nth)
    have at: "Some (shape (frames ! k)) = frame_shape reference (the (fs (file_list ! k)))"
      if "k < length file_list" for k
    proof -
      have "map (\<lambda>ccd. Some (shape ccd)) frames ! k =
          map (\<lambda>path. frame_shape reference (the (fs path))) file_list ! k"
        by (simp only: frames(2))
      with that len show ?thesis
        by simp
    qed
    have "Some (shape (frames ! n)) \<noteq> Some (shape (frames ! 0))"
      using at [OF n(1)] at [of 0] ne differ n(2) by (simp add: hd_conv_nth)
    then have "shape (frames ! n) \<noteq> shape (hd frames)"
      using fne by (simp add: hd_conv_nth)
    moreover have "frames ! n \<in> set frames"
      using n(1) len by simp
    ultimately have "\<not> list_all (\<lambda>ccd. shape ccd = shape (hd frames)) frames"
      by (auto simp: list_all_iff)
    with frames(1) show "load_and_combine fs file_list combine_method reference = Inl TypeError"
      by (simp add: load_and_combine_def Combiner_def)
  qed
next
  show "file_list \<noteq> [] \<and>
      (\<forall>path\<in>set file_list. frame_shape reference (the (fs path)) = Some s) \<and>
      (combine_method = ''average'' \<or> combine_method = ''median'') \<longrightarrow>
      (\<exists>master. load_and_combine fs file_list combine_method reference = Inr master \<and>
                shape master = s)"
  proof (rule impI, elim conjE)
    assume ne: "file_list \<noteq> []"
      and same: "\<forall>path\<in>set file_list. frame_shape reference (the (fs path)) = Some s"
      and valid: "combine_method = ''average'' \<or> combine_method = ''median''"
    from same have ok: "\<forall>path\<in>set file_list. frame_shape reference (the (fs path)) \<noteq> None"
      by simp
    from load_frames_shapes [OF assms ok] obtain frames where
      frames: "load_frames fs file_list reference = Inr frames"
        "map (\<lambda>ccd. Some (shape ccd)) frames =
         map (\<lambda>path. frame_shape reference (the (fs path))) file_list"
      by blast
    from frames(2) have len: "length frames = length file_list"
      by (rule map_eq_imp_length_eq)
    with ne have fne: "frames \<noteq> []"
      by auto
    have "map (\<lambda>path. frame_shape reference (the (fs path))) file_list =
        map (\<lambda>path. Some s) file_list"
      using same by simp
    with frames(2) have "map (\<lambda>ccd. Some (shape ccd)) frames = map (\<lambda>path. Some s) file_list"
      by simp
    then have "set (map (\<lambda>ccd. Some (shape ccd)) frames) \<subseteq> {Some s}"
      by auto
    then have all: "\<forall>ccd\<in>set frames. shape ccd = s"
      by auto
    with fne have hd: "shape (hd frames) = s"
      by simp
    from all hd have "list_all (\<lambda>ccd. shape ccd = shape (hd frames)) frames"
      by (simp add: list_all_iff)
    with fne have comb: "Combiner frames = Inr frames"
      by (simp add: Combiner_def)
    have "shape (average_combine frames) = s" "shape (median_combine frames) = s"
      using shape_combine_with [OF fne] hd by (simp_all add: average_combine_def median_combine_def)
    with frames(1) comb valid
    show "\<exists>master. load_and_combine fs file_list combine_method reference = Inr master \<and>
        shape master = s"
      by (auto simp: load_and_combine_def)
  qed
qed

text \<open>
  Claim C8, as the code behaves. An empty file list makes \<^verbatim>\<open>Combiner\<close> raise
  \<^verbatim>\<open>TypeError\<close>. For files that can be read: when some image cannot be broadcast against
  the reference, the subtraction raises \<^verbatim>\<open>ValueError\<close>; when every image can but the
  frames so obtained differ in shape, \<^verbatim>\<open>Combiner\<close> raises \<^verbatim>\<open>TypeError\<close>; and when the
  frames all have one shape, a master frame of that shape is returned, whether or not
  the images and the reference have equal shapes. The calibration raises \<^verbatim>\<open>ValueError\<close>
  exactly when the three shapes cannot be broadcast; shapes that differ but can be
  broadcast give a corrected image of the broadcast shape.
\<close>

theorem shape_errors:
  assumes "\<forall>path\<in>set file_list. fs path \<noteq> None"
  shows "load_and_combine fs [] combine_method reference = Inl TypeError \<and>
   ((\<exists>path\<in>set file_list. frame_shape reference (the (fs path)) = None) \<longrightarrow>
      load_and_combine fs file_list combine_method reference = Inl ValueError) \<and>
   ((\<forall>path\<in>set file_list. frame_shape reference (the (fs path)) \<noteq> None) \<and>
    (\<exists>path\<in>set file_list. frame_shape reference (the (fs path)) \<noteq>
                           frame_shape reference (the (fs (hd file_list)))) \<longrightarrow>
      load_and_combine fs file_list combine_method reference = Inl TypeError) \<and>
   (file_list \<noteq> [] \<and>
    (\<forall>path\<in>set file_list. frame_shape reference (the (fs path)) = Some s) \<and>
    (combine_method = ''average'' \<or> combine_method = ''median'') \<longrightarrow>
      (\<exists>master. load_and_combine fs file_list combine_method reference = Inr master \<and>
                shape master = s)) \<and>
   (case broadcast3 (shape raw) (shape dark) (shape flat) of
      None \<Rightarrow> corrected_image raw dark flat = Inl ValueError
    | Some s' \<Rightarrow> (\<exists>c. corrected_image raw dark flat = Inr c \<and> shape c = s'))"
proof -
  have "load_and_combine fs [] combine_method reference = Inl TypeError"
    by (simp add: load_and_combine_def Combiner_def)
  then show ?thesis
    using load_and_combine_shapes(1) [OF assms] load_and_combine_shapes(2) [OF assms]
      load_and_combine_shapes(3) [OF assms] corrected_image_broadcast [of raw dark flat]
    by (intro conjI)
qed

theorem shape_errors_witness:
  "mixed_shapes ''a'' \<noteq> None \<and> mixed_shapes ''b'' \<noteq> None \<and>
   frame_shape (Some [[1, 2, 3]]) (the (mixed_shapes ''a'')) = None \<and>
   load_and_combine mixed_shapes [''a'', ''b''] ''median'' (Some [[1, 2, 3]]) = Inl ValueError \<and>
   frame_shape None (the (mixed_shapes ''a'')) = Some (1, 2) \<and>
   frame_shape None (the (mixed_shapes ''b'')) = Some (2, 1) \<and>
   load_and_combine mixed_shapes [''a'', ''b''] ''median'' None = Inl TypeError \<and>
   frame_shape (Some [[0, 0], [0, 0]]) (the (mixed_shapes ''a'')) = Some (2, 2) \<and>
   frame_shape (Some [[0, 0], [0, 0]]) (the (mixed_shapes ''b'')) = Some (2, 2) \<and>
   (\<exists>master. load_and_combine mixed_shapes [''a'', ''b''] ''median'' (Some [[0, 0], [0, 0]]) =
               Inr master \<and> shape master = (2, 2)) \<and>
   broadcast3 (shape [[50, 50], [7, 8 :: real]]) (shape [[10, 10, 10 :: real]])
     (shape [[4, 4 :: real]]) = None \<and>
   corrected_image [[50, 50], [7, 8]] [[10, 10, 10]] [[4, 4]] = Inl ValueError"
proof -
  let ?files = "[''a'', ''b'']"
  have present: "mixed_shapes ''a'' \<noteq> None" "mixed_shapes ''b'' \<noteq> None"
    by (simp_all add: mixed_shapes_def)
  then have readable: "\<forall>path\<in>set ?files. mixed_shapes path \<noteq> None"
    by simp
  have v: "frame_shape (Some [[1, 2, 3]]) (the (mixed_shapes ''a'')) = None"
    by (simp add: frame_shape_def mixed_shapes_def broadcast_shapes_def broadcast_dim_def shape_def)
  have t: "frame_shape None (the (mixed_shapes ''a'')) = Some (1, 2)"
    "frame_shape None (the (mixed_shapes ''b'')) = Some (2, 1)"
    by (simp_all add: frame_shape_def mixed_shapes_def shape_def)
  have b: "frame_shape (Some [[0, 0], [0, 0]]) (the (mixed_shapes ''a'')) = Some (2, 2)"
    "frame_shape (Some [[0, 0], [0, 0]]) (the (mixed_shapes ''b'')) = Some (2, 2)"
    by (simp_all add: frame_shape_def mixed_shapes_def broadcast_shapes_def broadcast_dim_def
        shape_def)
  have nobc3: "broadcast3 (shape [[50, 50], [7, 8 :: real]]) (shape [[10, 10, 10 :: real]])
      (shape [[4, 4 :: real]]) = None"
    by (simp add: broadcast3_def broadcast_shapes_def broadcast_dim_def shape_def)
  have "load_and_combine mixed_shapes ?files ''median'' (Some [[1, 2, 3]]) = Inl ValueError"
    using shape_errors [OF readable, where reference = "Some [[1, 2, 3]]"
        and combine_method = "''median''"] v
    by simp
  moreover have "load_and_combine mixed_shapes ?files ''median'' None = Inl TypeError"
    using shape_errors [OF readable, where reference = None
        and combine_method = "''median''"] t
    by simp
  moreover have "\<exists>master. load_and_combine mixed_shapes ?files ''median''
      (Some [[0, 0], [0, 0]]) = Inr master \<and> shape master = (2, 2)"
    using shape_errors [OF readable, where reference = "Some [[0, 0], [0, 0]]"
        and combine_method = "''median''" and s = "(2, 2)"] b
    by simp
  moreover have "corrected_image [[50, 50], [7, 8]] [[10, 10, 10]] [[4, 4]] = Inl ValueError"
    using shape_errors [OF readable, where raw = "[[50, 50], [7, 8]]"
        and dark = "[[10, 10, 10]]" and flat = "[[4, 4]]"] nobc3
    by simp
  ultimately show ?thesis
    using present v t b nobc3 by blast
qed

text \<open>
  Claim C8 as stated fails: with a dark master of shape 1 by 2 and a flat and a raw image
  of shape 2 by 2, the combination of the flat subtracts the dark and returns a master
  frame, and the calibration returns a corrected image, although the shapes differ.
\<close>

theorem shape_errors_counterexample:
  "shape [[10, 10 :: real]] \<noteq> shape [[14, 14], [14, 14 :: real]] \<and>
   shape [[10, 10 :: real]] \<noteq> shape [[50, 50], [7, 8 :: real]] \<and>
   load_and_combine wide_dark [''flat''] ''median'' (Some [[10, 10]]) =
     Inr [[4, 4], [4, 4]] \<and>
   corrected_image [[50, 50], [7, 8]] [[10, 10]] [[4, 4], [4, 4]] =
     Inr [[Fin 40, Fin 40], [Fin (- 3), Fin (- 2)]]"
proof -
  have "load_and_combine wide_dark [''flat''] ''median'' (Some [[10, 10]]) =
      Inr [[4, 4], [4, 4]]"
    by (simp add: load_and_combine_def wide_dark_def ccd_read_def ccd_subtract_def np_binop_def
        broadcast_shapes_def broadcast_dim_def shape_def broadcast_to_def stretch_def
        Combiner_def median_combine_def combine_with_def pixel_stack_def median_def
        median_sorted_def upt_conv_Cons)
  moreover have "corrected_image [[50, 50], [7, 8]] [[10, 10]] [[4, 4], [4, 4]] =
      Inr [[Fin 40, Fin 40], [Fin (- 3), Fin (- 2)]]"
    by (simp add: corrected_image_def np_binop_def broadcast_shapes_def shape_def
        broadcast_dim_def broadcast_to_def stretch_def combined_flat_normalized_def
        np_median_def median_def median_sorted_def fdiv_def)
  ultimately show ?thesis
    by (simp add: shape_def)
qed

section \<open>Properties of the poll loop\<close>

lemma poll_step_pending:
  assumes "examine (server (requests s)) = None"
  shows "check_submission_status server s =
         check_submission_status server \<lparr>requests = Suc (requests s), slept = slept s + 30\<rparr>"
  using assms by (subst check_submission_status.simps) (cases s, simp add: Let_def)

lemma poll_step_done:
  assumes "examine (server (requests s)) = Some outcome"
  shows "check_submission_status server s =
         Some (outcome, \<lparr>requests = Suc (requests s), slept = slept s\<rparr>)"
  using assms by (subst check_submission_status.simps) (cases s, simp add: Let_def)

lemma poll_skip:
  assumes "\<forall>i<k. examine (server (requests s + i)) = None"
  shows "check_submission_status server s =
         check_submission_status server \<lparr>requests = requests s + k, slept = slept s + 30 * k\<rparr>"
  using assms
proof (induction k arbitrary: s)
  case 0
  then show ?case by (cases s) simp
next
  case (Suc k)
  let ?s = "\<lparr>requests = Suc (requests s), slept = slept s + 30\<rparr>"
  have first: "examine (server (requests s)) = None"
    using Suc.prems by (metis add.right_neutral zero_less_Suc)
  have rest: "\<forall>i<k. examine (server (requests ?s + i)) = None"
    using Suc.prems by (metis Suc_less_eq add_Suc_shift poll_state.select_convs(1))
  have "check_submission_status server s = check_submission_status server ?s"
    using first by (rule poll_step_pending)
  also have "\<dots> = check_submission_status server
      \<lparr>requests = requests ?s + k, slept = slept ?s + 30 * k\<rparr>"
    using rest by (rule Suc.IH)
  finally show ?case by (simp add: add.assoc)
qed

lemma poll_result:
  assumes "\<forall>i<k. examine (server (requests s + i)) = None"
    and "examine (server (requests s + k)) = Some outcome"
  shows "check_submission_status server s =
         Some (outcome, \<lparr>requests = Suc (requests s + k), slept = slept s + 30 * k\<rparr>)"
proof -
  let ?s = "\<lparr>requests = requests s + k, slept = slept s + 30 * k\<rparr>"
  have "check_submission_status server s = check_submission_status server ?s"
    using assms(1) by (rule poll_skip)
  also have "\<dots> = Some (outcome, \<lparr>requests = Suc (requests ?s), slept = slept ?s\<rparr>)"
    using assms(2) by (intro poll_step_done) simp
  finally show ?thesis by simp
qed



lemma examine_failure:
  assumes "\<not> truthy (get_jobs result)" and "result ''status'' = Some (JStr ''failure'')"
  shows "examine (Response True (Some (JDict result))) =
           Some (Inl (Exception ''Submission failed: ''))"
  using assms by simp

lemma examine_job:
  assumes "result ''jobs'' = Some (JList (job # others))"
  shows "examine (Response True (Some (JDict result))) = Some (Inr job)"
  using assms by (simp add: get_jobs_def)

lemma examine_exits:
  "examine NoConnection = Some (Inl ConnectionError)"
  "examine (Response False body) = Some (Inl HTTPError)"
  "examine (Response True None) = Some (Inl JSONDecodeError)"
  "examine (Response True (Some (JList l))) = Some (Inl AttributeError)"
  "examine (Response True (Some (JDict [''jobs'' \<mapsto> JNum 7]))) = Some (Inl TypeError)"
  "examine (Response True (Some (JDict [''jobs'' \<mapsto> JStr ''12'']))) = Some (Inr (JStr ''1''))"
  by (simp_all add: get_jobs_def)

lemma examine_pending: "examine pending_reply = None"
  by (simp add: pending_reply_def get_jobs_def)

text \<open>
  Claim C6, as the code behaves. Let the replies before the \<open>k\<close>-th make the loop continue
  and let the \<open>k\<close>-th pass the HTTP check and decode to a dictionary. When the value under
  \<^verbatim>\<open>'jobs'\<close> is missing or false as a condition (an empty list, null) and the status is
  \<^verbatim>\<open>'failure'\<close>, the loop raises the exception of line 81 at once: it has sent \<open>k + 1\<close>
  requests, the failing one last, and slept \<open>k\<close> times 30 seconds, once after each earlier
  reply and not after the failure. When the value under \<^verbatim>\<open>'jobs'\<close> is a non-empty list,
  the loop returns its first entry instead, whatever that entry and the status are.
\<close>

theorem poll_raises_on_failure:
  assumes "\<forall>i<k. examine (server i) = None"
    and "server k = Response True (Some (JDict result))"
  shows "(\<not> truthy (get_jobs result) \<and> result ''status'' = Some (JStr ''failure'') \<longrightarrow>
            check_submission_status server start =
              Some (Inl (Exception ''Submission failed: ''),
                    \<lparr>requests = Suc k, slept = 30 * k\<rparr>)) \<and>
         (\<forall>job others. result ''jobs'' = Some (JList (job # others)) \<longrightarrow>
            check_submission_status server start =
              Some (Inr job, \<lparr>requests = Suc k, slept = 30 * k\<rparr>))"
proof -
  have before: "\<forall>i<k. examine (server (requests start + i)) = None"
    using assms(1) by (simp add: start_def)
  have run: "check_submission_status server start =
      Some (outcome, \<lparr>requests = Suc k, slept = 30 * k\<rparr>)"
    if "examine (Response True (Some (JDict result))) = Some outcome" for outcome
  proof -
    have "examine (server (requests start + k)) = Some outcome"
      using that assms(2) by (simp add: start_def)
    from poll_result [OF before this] show ?thesis
      by (simp add: start_def)
  qed
  show ?thesis
    using run examine_failure [of result] examine_job [of result] by blast
qed

theorem poll_raises_on_failure_witness:
  "examine (fails_third 0) = None \<and> examine (fails_third 1) = None \<and>
   fails_third 2 =
     Response True (Some (JDict [''jobs'' \<mapsto> JList [], ''status'' \<mapsto> JStr ''failure''])) \<and>
   \<not> truthy (get_jobs [''jobs'' \<mapsto> JList [], ''status'' \<mapsto> JStr ''failure'']) \<and>
   check_submission_status fails_third start =
     Some (Inl (Exception ''Submission failed: ''), \<lparr>requests = 3, slept = 60\<rparr>) \<and>
   examine (job_third 0) = None \<and> examine (job_third 1) = None \<and>
   job_third 2 =
     Response True (Some (JDict [''jobs'' \<mapsto> JList [JNum 7], ''status'' \<mapsto> JStr ''failure''])) \<and>
   check_submission_status job_third start =
     Some (Inr (JNum 7), \<lparr>requests = 3, slept = 60\<rparr>)"
proof -
  let ?failed = "[''jobs'' \<mapsto> JList [], ''status'' \<mapsto> JStr ''failure'']"
  let ?job = "[''jobs'' \<mapsto> JList [JNum 7], ''status'' \<mapsto> JStr ''failure'']"
  have p: "\<forall>i<2. examine (fails_third i) = None"
    by (simp add: fails_third_def examine_pending)
  have f: "fails_third 2 = Response True (Some (JDict ?failed))"
    by (simp add: fails_third_def failure_reply_def)
  have g: "\<not> truthy (get_jobs ?failed)" "?failed ''status'' = Some (JStr ''failure'')"
    by (simp_all add: get_jobs_def)
  have p': "\<forall>i<2. examine (job_third i) = None"
    by (simp add: job_third_def examine_pending)
  have f': "job_third 2 = Response True (Some (JDict ?job))"
    by (simp add: job_third_def job_reply_def)
  have g': "?job ''jobs'' = Some (JList [JNum 7])"
    by simp
  have "check_submission_status fails_third start =
      Some (Inl (Exception ''Submission failed: ''), \<lparr>requests = Suc 2, slept = 30 * 2\<rparr>)"
    using poll_raises_on_failure [OF p f] g by blast
  moreover have "check_submission_status job_third start =
      Some (Inr (JNum 7), \<lparr>requests = Suc 2, slept = 30 * 2\<rparr>)"
    using poll_raises_on_failure [OF p' f'] g' by blast
  moreover have "examine (fails_third 0) = None" "examine (fails_third 1) = None"
    using p by simp_all
  moreover have "examine (job_third 0) = None" "examine (job_third 1) = None"
    using p' by simp_all
  ultimately show ?thesis
    using f f' g(1) by (simp add: eval_nat_numeral)
qed

text \<open>
  Claim C6 as stated fails: a reply with status \<^verbatim>\<open>'failure'\<close> whose \<^verbatim>\<open>'jobs'\<close> list holds
  one null entry, so that no job is assigned, does not raise: line 78 finds the list
  non-empty and line 79 returns the null entry.
\<close>

theorem poll_failure_counterexample:
  "(\<lambda>n. queued_failure_reply) 0 =
     Response True (Some (JDict [''jobs'' \<mapsto> JList [JNull], ''status'' \<mapsto> JStr ''failure''])) \<and>
   check_submission_status (\<lambda>n. queued_failure_reply) start =
     Some (Inr JNull, \<lparr>requests = 1, slept = 0\<rparr>)"
proof -
  have "examine ((\<lambda>n. queued_failure_reply) (requests start)) = Some (Inr JNull)"
    by (simp add: queued_failure_reply_def get_jobs_def)
  from poll_step_done [OF this] show ?thesis
    by (simp add: start_def queued_failure_reply_def)
qed




section \<open>Properties of the submission\<close>

lemma submit_uploads:
  "snd (submit_fits_file srv k p w) = w \<or>
   (\<exists>content. files w p = Some content \<and>
      snd (submit_fits_file srv k p w) = w\<lparr>uploads := uploads w @ [content]\<rparr>)"
  by (auto simp: submit_fits_file_def Let_def split: option.splits)

lemma submit_success:
  assumes "submit_fits_file srv k p w = (Inr subid, w')"
  shows "\<exists>content. files w p = Some content \<and> w' = w\<lparr>uploads := uploads w @ [content]\<rparr>"
  using assms by (auto simp: submit_fits_file_def Let_def split: option.splits if_splits)

text \<open>
  Claim C3. Whenever a run posts a file to the service, and in particular whenever it
  returns a submission id, the posted pixels and the pixels written to
  \<^verbatim>\<open>processed_image.fits\<close> are those of the target file as it was on disk before the run.
  The corrected image does not occur in them.
\<close>

theorem submitted_file_is_raw_target:
  "(calibrate_and_submit srv w = (outcome, w') \<and> uploads w' \<noteq> uploads w \<longrightarrow>
      (\<exists>raw. files w target_path = Some raw \<and> uploads w' = uploads w @ [raw] \<and>
             files w' fits_file_path = Some raw)) \<and>
   (calibrate_and_submit srv w = (Inr subid, w') \<longrightarrow>
      (\<exists>raw. files w target_path = Some raw \<and> uploads w' = uploads w @ [raw] \<and>
             files w' fits_file_path = Some raw))"
proof -
  have main: "\<exists>raw. files w target_path = Some raw \<and> uploads w' = uploads w @ [raw] \<and>
             files w' fits_file_path = Some raw"
    if run: "calibrate_and_submit srv w = (outcome, w')" and up: "uploads w' \<noteq> uploads w"
    for outcome
  proof -
    from run up obtain session_key target_fits where
      t: "files w target_path = Some target_fits" and
      s: "submit_fits_file srv session_key fits_file_path
            (w\<lparr>files := (files w)(fits_file_path \<mapsto> target_fits)\<rparr>) = (outcome, w')"
      by (auto simp: calibrate_and_submit_def split: sum.splits option.splits)
    let ?w = "w\<lparr>files := (files w)(fits_file_path \<mapsto> target_fits)\<rparr>"
    from submit_uploads [of srv session_key fits_file_path ?w] s up
    have "w' = ?w\<lparr>uploads := uploads ?w @ [target_fits]\<rparr>"
      by auto
    with t show ?thesis by simp
  qed
  have ok: "uploads w' \<noteq> uploads w" if run: "calibrate_and_submit srv w = (Inr subid, w')"
  proof -
    from run obtain session_key target_fits where
      s: "submit_fits_file srv session_key fits_file_path
            (w\<lparr>files := (files w)(fits_file_path \<mapsto> target_fits)\<rparr>) = (Inr subid, w')"
      by (auto simp: calibrate_and_submit_def split: sum.splits option.splits)
    from submit_success [OF s] show ?thesis by auto
  qed
  show ?thesis
    using main ok by blast
qed

lemma observation_dark:
  "load_and_combine observation dark_frame_paths ''median'' None = Inr [[11]]"
  by (simp add: load_and_combine_def dark_frame_paths_def observation_def ccd_read_def
      Combiner_def median_combine_def combine_with_def pixel_stack_def shape_def median_def
      median_sorted_def)

lemma observation_flat:
  "load_and_combine observation flat_field_paths ''median'' (Some [[11]]) = Inr [[5]]"
  by (simp add: load_and_combine_def flat_field_paths_def observation_def ccd_read_def
      ccd_subtract_def np_binop_def broadcast_shapes_def broadcast_dim_def broadcast_to_def
      stretch_def Combiner_def median_combine_def combine_with_def pixel_stack_def shape_def
      median_def median_sorted_def)

lemma observation_corrected: "corrected_image [[50]] [[11]] [[5]] = Inr [[Fin 39]]"
  by (simp add: corrected_image_def np_binop_def broadcast_shapes_def shape_def broadcast_dim_def
      broadcast_to_def stretch_def combined_flat_normalized_def np_median_def median_def
      median_sorted_def fdiv_def)

lemma observation_run: "calibrate_and_submit good_service before_run = (Inr 7, after_run)"
proof -
  have login: "astrometry_login good_service = Inr ''key''"
    by (simp add: astrometry_login_def good_service_def)
  have dark: "load_and_combine (files before_run) dark_frame_paths ''median'' None = Inr [[11]]"
    using observation_dark by (simp add: before_run_def)
  have flat: "load_and_combine (files before_run) flat_field_paths ''median'' (Some [[11]]) =
      Inr [[5]]"
    using observation_flat by (simp add: before_run_def)
  have target: "files before_run target_path = Some [[50]]"
    by (simp add: before_run_def observation_def target_path_def)
  have submit: "submit_fits_file good_service ''key'' fits_file_path
      (before_run\<lparr>files := (files before_run)(fits_file_path \<mapsto> [[50]])\<rparr>) = (Inr 7, after_run)"
    by (simp add: submit_fits_file_def good_service_def before_run_def after_run_def Let_def)
  show ?thesis
    by (simp add: calibrate_and_submit_def login dark flat target observation_corrected submit)
qed

theorem submitted_file_is_raw_target_witness:
  "calibrate_and_submit good_service before_run = (Inr 7, after_run) \<and>
   uploads after_run \<noteq> uploads before_run \<and>
   files before_run target_path = Some [[50]] \<and>
   uploads after_run = uploads before_run @ [[[50]]] \<and>
   files after_run fits_file_path = Some [[50]]"
proof -
  have "uploads after_run \<noteq> uploads before_run"
    by (simp add: after_run_def before_run_def)
  moreover have "files before_run target_path = Some [[50]]"
    by (simp add: before_run_def observation_def target_path_def)
  moreover note observation_run
  ultimately show ?thesis
    using submitted_file_is_raw_target [of good_service before_run "Inr 7" after_run 7]
    by auto
qed

section \<open>Properties of the projection\<close>





















section \<open>Properties of the detection stage\<close>

text \<open>
  Claim C4, as the code behaves. When the finder finds no source its result is \<^verbatim>\<open>None\<close>
  and line 133 raises \<^verbatim>\<open>TypeError\<close>, so photometry and projection are not reached. When
  it finds sources, photometry and projection receive their centroids in table order.
\<close>

theorem no_sources_raises:
  "(daofind corrected = None \<longrightarrow>
      detect_measure_project daofind aperture_photometry w corrected = Inl TypeError) \<and>
   (daofind corrected = Some (first, rest) \<and> fst (cdelt w) \<noteq> 0 \<and> snd (cdelt w) \<noteq> 0 \<longrightarrow>
      detect_measure_project daofind aperture_photometry w corrected =
        Inr (aperture_photometry corrected
               (map (\<lambda>s. (xcentroid s, ycentroid s)) (first # rest)),
             map (\<lambda>s. pix2world w 0 (xcentroid s, ycentroid s)) (first # rest)))"
  by (simp add: detect_measure_project_def source_positions_def all_pix2world_def Let_def)

theorem no_sources_raises_witness:
  "finds_nothing [[Fin 0]] = None \<and>
   detect_measure_project finds_nothing count_apertures field_wcs [[Fin 0]] = Inl TypeError \<and>
   finds_one [[Fin 0]] = Some (\<lparr>xcentroid = - 1, ycentroid = - 1\<rparr>, []) \<and>
   fst (cdelt field_wcs) \<noteq> 0 \<and> snd (cdelt field_wcs) \<noteq> 0 \<and>
   detect_measure_project finds_one count_apertures field_wcs [[Fin 0]] =
     Inr (1, [pix2world field_wcs 0 (- 1, - 1)])"
proof -
  have n: "finds_nothing [[Fin 0]] = None"
    by (simp add: finds_nothing_def)
  have o: "finds_one [[Fin 0]] = Some (\<lparr>xcentroid = - 1, ycentroid = - 1\<rparr>, [])"
    by (simp add: finds_one_def)
  have c: "fst (cdelt field_wcs) \<noteq> 0" "snd (cdelt field_wcs) \<noteq> 0"
    by (simp_all add: field_wcs_def)
  from no_sources_raises [of finds_nothing "[[Fin 0]]" count_apertures field_wcs] n
  have "detect_measure_project finds_nothing count_apertures field_wcs [[Fin 0]] = Inl TypeError"
    by blast
  moreover
  from no_sources_raises [of finds_one "[[Fin 0]]" count_apertures field_wcs
      "\<lparr>xcentroid = - 1, ycentroid = - 1\<rparr>" "[]"] o c
  have "detect_measure_project finds_one count_apertures field_wcs [[Fin 0]] =
      Inr (1, [pix2world field_wcs 0 (- 1, - 1)])"
    by (simp add: count_apertures_def)
  ultimately show ?thesis
    using n o c by blast
qed

text \<open>
  Claim C4 as stated fails: with a finder that finds nothing the stage does not hand an
  empty list downstream, it raises.
\<close>

theorem no_sources_counterexample:
  "finds_nothing [[Fin 0]] = None \<and>
   source_positions (finds_nothing [[Fin 0]]) = Inl TypeError \<and>
   detect_measure_project finds_nothing count_apertures field_wcs [[Fin 0]] = Inl TypeError"
  by (simp add: finds_nothing_def source_positions_def detect_measure_project_def)

end
